theory Spec2Isabelle
  imports Main "HOL-Library.Word" "HOL-Library.AList"
begin

unbundle bit_operations_syntax

section \<open>The temporary file name: SHA-256 and URL-safe Base64\<close>

text \<open>
  Modelled from the spec: the hash and the encoding are functions of the Qt library, not
  of inifile.cpp. The constructor of \<open>IniFile\<close> (lines 49 to 53) names the temporary copy
  \<^verbatim>\<open>QCryptographicHash::hash(iniFilepath.toStr().toLocal8Bit(), QCryptographicHash::Sha256)
      .toBase64(QByteArray::Base64UrlEncoding | QByteArray::OmitTrailingEquals)\<close>,
  which the spec (section 6) calls SHA-256 of the path's bytes, encoded URL-safe without
  padding. Both are fixed by public standards (FIPS 180-4 and RFC 4648, section 5), so they
  are written out here. A path is a string of bytes, which \<open>toLocal8Bit\<close> hands over as
  they are. Bytes are naturals below 256 and 32-bit words are naturals
  below \<open>2 ^ 32\<close>; the wrap-around of 32-bit arithmetic is written out as \<open>u32\<close>.
  The round constants \<open>K256\<close> and the initial hash value \<open>H256\<close> are given in decimal.
\<close>

definition K256 :: "nat list" where
  "K256 = [
   1116352408, 1899447441, 3049323471, 3921009573, 961987163, 1508970993,
   2453635748, 2870763221, 3624381080, 310598401, 607225278, 1426881987,
   1925078388, 2162078206, 2614888103, 3248222580, 3835390401, 4022224774,
   264347078, 604807628, 770255983, 1249150122, 1555081692, 1996064986,
   2554220882, 2821834349, 2952996808, 3210313671, 3336571891, 3584528711,
   113926993, 338241895, 666307205, 773529912, 1294757372, 1396182291,
   1695183700, 1986661051, 2177026350, 2456956037, 2730485921, 2820302411,
   3259730800, 3345764771, 3516065817, 3600352804, 4094571909, 275423344,
   430227734, 506948616, 659060556, 883997877, 958139571, 1322822218,
   1537002063, 1747873779, 1955562222, 2024104815, 2227730452, 2361852424,
   2428436474, 2756734187, 3204031479, 3329325298]"

definition H256 :: "nat list" where
  "H256 = [1779033703, 3144134277, 1013904242, 2773480762,
           1359893119, 2600822924, 528734635, 1541459225]"

definition u32 :: "nat \<Rightarrow> nat" where
  "u32 x = x AND 0xffffffff"

definition rotr :: "nat \<Rightarrow> nat \<Rightarrow> nat" where
  "rotr n x = drop_bit n x OR u32 (push_bit (32 - n) x)"

text \<open>The functions \<open>Ch\<close> and \<open>Maj\<close> of the standard.\<close>

definition ch32 :: "nat \<Rightarrow> nat \<Rightarrow> nat \<Rightarrow> nat" where
  "ch32 e f g = (e AND f) XOR ((e XOR 0xffffffff) AND g)"

definition maj32 :: "nat \<Rightarrow> nat \<Rightarrow> nat \<Rightarrow> nat" where
  "maj32 a b c = (a AND b) XOR (a AND c) XOR (b AND c)"

definition bsig0 :: "nat \<Rightarrow> nat" where
  "bsig0 x = rotr 2 x XOR rotr 13 x XOR rotr 22 x"

definition bsig1 :: "nat \<Rightarrow> nat" where
  "bsig1 x = rotr 6 x XOR rotr 11 x XOR rotr 25 x"

definition ssig0 :: "nat \<Rightarrow> nat" where
  "ssig0 x = rotr 7 x XOR rotr 18 x XOR drop_bit 3 x"

definition ssig1 :: "nat \<Rightarrow> nat" where
  "ssig1 x = rotr 17 x XOR rotr 19 x XOR drop_bit 10 x"

text \<open>Four bytes, most significant first, make one word of a block.\<close>

fun be32 :: "nat list \<Rightarrow> nat list" where
  "be32 (a # b # c # d # rest) = (((a * 256 + b) * 256 + c) * 256 + d) # be32 rest"
| "be32 _ = []"

text \<open>One round of the compression function on the working variables \<open>a\<close> to \<open>h\<close>.\<close>

definition step :: "nat \<Rightarrow> nat \<Rightarrow> nat list \<Rightarrow> nat list" where
  "step k w st =
     (case st of
        [a, b, c, d, e, f, g, h] \<Rightarrow>
          (let t1 = u32 (h + bsig1 e + ch32 e f g + k + w);
               t2 = u32 (bsig0 a + maj32 a b c)
           in [u32 (t1 + t2), a, b, c, u32 (d + t1), e, f, g])
      | _ \<Rightarrow> st)"

text \<open>
  The message schedule is kept as a window of sixteen words: round \<open>t\<close> consumes the
  first word \<open>W\<^sub>t\<close> and appends \<open>W\<^bsub>t+16\<^esub>\<close>.
\<close>

definition next_w :: "nat list \<Rightarrow> nat" where
  "next_w ws = u32 (ssig1 (ws ! 14) + ws ! 9 + ssig0 (ws ! 1) + ws ! 0)"

fun rounds :: "nat list \<Rightarrow> nat list \<Rightarrow> nat list \<Rightarrow> nat list" where
  "rounds [] ws st = st"
| "rounds (k # ks) ws st = rounds ks (tl ws @ [next_w ws]) (step k (hd ws) st)"

definition compress :: "nat list \<Rightarrow> nat list \<Rightarrow> nat list" where
  "compress hs block = map2 (\<lambda>x y. u32 (x + y)) hs (rounds K256 (be32 block) hs)"

definition bytes32 :: "nat \<Rightarrow> nat list" where
  "bytes32 w = [drop_bit 24 w AND 255, drop_bit 16 w AND 255, drop_bit 8 w AND 255, w AND 255]"

definition bytes64 :: "nat \<Rightarrow> nat list" where
  "bytes64 w = bytes32 (drop_bit 32 w AND 0xffffffff) @ bytes32 (w AND 0xffffffff)"

fun zeros :: "nat \<Rightarrow> nat list" where
  "zeros 0 = []"
| "zeros (Suc n) = 0 # zeros n"

definition pad :: "nat list \<Rightarrow> nat list" where
  "pad m = m @ [0x80] @ zeros ((119 - length m mod 64) mod 64) @ bytes64 (8 * length m)"

fun blocks :: "nat list \<Rightarrow> nat list list" where
  "blocks [] = []"
| "blocks (b # bs) = take 64 (b # bs) # blocks (drop 64 (b # bs))"

definition sha256 :: "nat list \<Rightarrow> nat list" where
  "sha256 m = concat (map bytes32 (foldl compress H256 (blocks (pad m))))"

definition b64url_alphabet :: string where
  "b64url_alphabet = ''ABCDEFGHIJKLMNOPQRSTUVWXYZabcdefghijklmnopqrstuvwxyz0123456789-_''"

definition b64char :: "nat \<Rightarrow> char" where
  "b64char n = b64url_alphabet ! (n mod 64)"

text \<open>
  \<open>toBase64\<close> with \<open>Base64UrlEncoding | OmitTrailingEquals\<close>: three bytes give four
  characters; a last group of one or two bytes gives two or three, with no padding.
\<close>

fun toBase64Url :: "nat list \<Rightarrow> string" where
  "toBase64Url (a # b # c # rest) =
     (let n = (a * 256 + b) * 256 + c
      in b64char (n div 262144) # b64char (n div 4096) # b64char (n div 64) # b64char n
           # toBase64Url rest)"
| "toBase64Url [a, b] =
     (let n = (a * 256 + b) * 256
      in [b64char (n div 262144), b64char (n div 4096), b64char (n div 64)])"
| "toBase64Url [a] =
     (let n = a * 65536 in [b64char (n div 262144), b64char (n div 4096)])"
| "toBase64Url [] = []"

definition toLocal8Bit :: "string \<Rightarrow> nat list" where
  "toLocal8Bit s = map of_char s"

definition tmpFilename :: "string \<Rightarrow> string" where
  "tmpFilename s = toBase64Url (sha256 (toLocal8Bit s))"


section \<open>Decimal text of the file version\<close>

text \<open>
  Modelled from the spec: the conversions are functions of the Qt library; the spec
  (section 6) has the version written as locale-independent decimal text and read back
  with a fallback when it is absent or no number.
  \<open>setFileVersion\<close> stores \<open>QString::number(version)\<close> and the constructor reads it
  back with \<open>QVariant::toInt(&ok)\<close>. The version is a C++ \<open>int\<close>, a 32-bit word read as
  two's complement. \<open>QVariant::toInt\<close> converts a string through \<open>toLongLong\<close> and then
  narrows the 64-bit value to \<open>int\<close>; \<open>ok\<close> only tells whether the text was a decimal
  number in the 64-bit range.
\<close>

type_synonym cint = "32 word"

definition digit_char :: "nat \<Rightarrow> char" where
  "digit_char d = ''0123456789'' ! d"

fun number_nat :: "nat \<Rightarrow> string" where
  "number_nat n = (if n < 10 then [digit_char n] else number_nat (n div 10) @ [digit_char (n mod 10)])"

declare number_nat.simps [simp del]

definition QString_number :: "cint \<Rightarrow> string" where
  "QString_number v =
     (if sint v < 0 then CHR ''-'' # number_nat (nat (- sint v)) else number_nat (nat (sint v)))"

definition is_digit :: "char \<Rightarrow> bool" where
  "is_digit c = (48 \<le> (of_char c :: nat) \<and> (of_char c :: nat) \<le> 57)"

definition digit_val :: "char \<Rightarrow> nat" where
  "digit_val c = of_char c - 48"

definition parse_nat :: "string \<Rightarrow> nat option" where
  "parse_nat s =
     (if s = [] \<or> \<not> list_all is_digit s then None
      else Some (foldl (\<lambda>a c. 10 * a + digit_val c) 0 s))"

definition toLongLong :: "string \<Rightarrow> int option" where
  "toLongLong s =
     (case (case s of
              c # r \<Rightarrow>
                if c = CHR ''-'' then map_option (\<lambda>n. - int n) (parse_nat r)
                else if c = CHR ''+'' then map_option int (parse_nat r)
                else map_option int (parse_nat s)
            | [] \<Rightarrow> None) of
        None \<Rightarrow> None
      | Some n \<Rightarrow> if - (2 ^ 63) \<le> n \<and> n < 2 ^ 63 then Some n else None)"

text \<open>
  The pair is the returned \<open>int\<close> and the flag \<open>ok\<close>; an invalid variant (a key that is
  not there) and a text that is no number both give \<open>(0, False)\<close>.
\<close>

definition QVariant_toInt :: "string option \<Rightarrow> cint \<times> bool" where
  "QVariant_toInt v =
     (case v of
        None \<Rightarrow> (0, False)
      | Some s \<Rightarrow> (case toLongLong s of None \<Rightarrow> (0, False) | Some n \<Rightarrow> (word_of_int n, True)))"

section \<open>The file system\<close>

text \<open>
  Modelled from the spec: the file operations are those of the Qt library (\<open>QFile\<close>,
  \<open>QDir\<close>), which the spec takes as given: copy, delete and create can each fail.
  A file holds either key-value entries in INI format or bytes that the INI reader
  rejects. A just created, empty file is \<open>Ini []\<close>. Whether the operating system lets a
  file be removed, written or read, and whether a directory can be made, is given by the
  world; directories themselves are not tracked.
\<close>

type_synonym path = string

datatype content = Ini "(string \<times> string) list" | Malformed

record world =
  files :: "path \<Rightarrow> content option"
  tempPath :: path
  unremovable :: "path set"
  unwritable :: "path set"
  unreadable :: "path set"
  mkPathFails :: "path set"

text \<open>
  Modelled from the spec: \<open>FilePath\<close> (filepath.h) is not among the sources; the spec
  treats path utilities and directory creation as external helpers.
  \<open>isExistingFile\<close> tells whether a file is there, \<open>getParentDir\<close> cuts the last
  component, \<open>mkPath\<close> reports whether the directory could be made.
\<close>

definition isExistingFile :: "path \<Rightarrow> world \<Rightarrow> bool" where
  "isExistingFile p w = (files w p \<noteq> None)"

definition getParentDir :: "path \<Rightarrow> path" where
  "getParentDir p = rev (tl (dropWhile (\<lambda>c. c \<noteq> CHR ''/'') (rev p)))"

definition mkPath :: "path \<Rightarrow> world \<Rightarrow> bool" where
  "mkPath d w = (d \<notin> mkPathFails w)"

text \<open>\<open>QFile::exists\<close>, \<open>QFile::remove\<close>, \<open>QFile::copy\<close> (which never overwrites) and
  \<open>QFile::open(QIODevice::WriteOnly)\<close> followed by \<open>close\<close> (which creates or truncates).\<close>

definition QFile_exists :: "path \<Rightarrow> world \<Rightarrow> bool" where
  "QFile_exists p w = (files w p \<noteq> None)"

definition QFile_remove :: "path \<Rightarrow> world \<Rightarrow> bool \<times> world" where
  "QFile_remove p w =
     (if files w p \<noteq> None \<and> p \<notin> unremovable w
      then (True, w\<lparr>files := (files w)(p := None)\<rparr>)
      else (False, w))"

definition QFile_copy :: "path \<Rightarrow> path \<Rightarrow> world \<Rightarrow> bool \<times> world" where
  "QFile_copy src dst w =
     (case files w src of
        None \<Rightarrow> (False, w)
      | Some c \<Rightarrow>
          if src \<in> unreadable w \<or> files w dst \<noteq> None \<or> dst \<in> unwritable w then (False, w)
          else (True, w\<lparr>files := (files w)(dst \<mapsto> c)\<rparr>))"

definition QFile_open_WriteOnly :: "path \<Rightarrow> world \<Rightarrow> bool \<times> world" where
  "QFile_open_WriteOnly p w =
     (if p \<in> unwritable w then (False, w)
      else (True, w\<lparr>files := (files w)(p \<mapsto> Ini [])\<rparr>))"

text \<open>\<open>QDir::temp().absoluteFilePath("EDA4U/" % tmpFilename)\<close>.\<close>

definition absoluteFilePath :: "path \<Rightarrow> string \<Rightarrow> path" where
  "absoluteFilePath dir name = dir @ ''/'' @ name"

section \<open>The key-value engine\<close>

text \<open>
  Modelled from the spec: the key-value engine is the Qt class \<open>QSettings\<close>, for the spec
  (sections 1 and 6) an external library with \<open>open\<close>, \<open>get\<close>, \<open>set\<close>, \<open>flush\<close> and
  \<open>status\<close>.
  \<open>QSettings\<close> in \<open>IniFormat\<close>, as far as \<open>IniFile\<close> uses it: a handle remembers its file,
  the entries it last read, the values set and not yet written, and the first error it
  met. \<open>sync\<close> reads the file again, lays the unwritten values over it and writes the
  result; it reports through \<open>status\<close>. An error status is never cleared.
\<close>

datatype status = NoError | AccessError | FormatError

record qsettings =
  fileName :: path
  entries :: "(string \<times> string) list"
  changes :: "(string \<times> string) list"
  status :: status

definition setStatus :: "status \<Rightarrow> qsettings \<Rightarrow> qsettings" where
  "setStatus st q = (if st = NoError \<or> status q = NoError then q\<lparr>status := st\<rparr> else q)"

definition loadFile :: "path \<Rightarrow> world \<Rightarrow> status \<times> (string \<times> string) list" where
  "loadFile p w =
     (case files w p of
        None \<Rightarrow> (NoError, [])
      | Some c \<Rightarrow>
          if p \<in> unreadable w then (AccessError, [])
          else (case c of Ini kv \<Rightarrow> (NoError, kv) | Malformed \<Rightarrow> (FormatError, [])))"

definition QSettings_new :: "path \<Rightarrow> world \<Rightarrow> qsettings" where
  "QSettings_new p w =
     (case loadFile p w of
        (st, kv) \<Rightarrow> \<lparr>fileName = p, entries = kv, changes = [], status = st\<rparr>)"

definition QSettings_value :: "qsettings \<Rightarrow> string \<Rightarrow> string option" where
  "QSettings_value q k =
     (case map_of (changes q) k of Some v \<Rightarrow> Some v | None \<Rightarrow> map_of (entries q) k)"

definition QSettings_setValue :: "string \<Rightarrow> string \<Rightarrow> qsettings \<Rightarrow> qsettings" where
  "QSettings_setValue k v q = q\<lparr>changes := AList.update k v (changes q)\<rparr>"

definition merge :: "(string \<times> string) list \<Rightarrow> (string \<times> string) list \<Rightarrow> (string \<times> string) list" where
  "merge chs kv = fold (\<lambda>(k, v). AList.update k v) chs kv"

definition QSettings_sync :: "qsettings \<Rightarrow> world \<Rightarrow> qsettings \<times> world" where
  "QSettings_sync q w =
     (case loadFile (fileName q) w of
        (st, kv) \<Rightarrow>
          if st \<noteq> NoError then (setStatus st q, w)
          else if changes q = [] then (q\<lparr>entries := kv\<rparr>, w)
          else if fileName q \<in> unwritable w then (setStatus AccessError q, w)
          else (q\<lparr>entries := merge (changes q) kv, changes := []\<rparr>,
                w\<lparr>files := (files w)(fileName q \<mapsto> Ini (merge (changes q) kv))\<rparr>))"

text \<open>\<open>delete settings\<close>: the destructor of \<open>QSettings\<close> writes what is still unwritten.\<close>

definition QSettings_delete :: "qsettings \<Rightarrow> world \<Rightarrow> world" where
  "QSettings_delete q w = snd (QSettings_sync q w)"

section \<open>IniFile\<close>

text \<open>
  The exceptions of inifile.cpp. A \<open>RuntimeError\<close> carries its debug text (the path or
  paths) and which of the user messages it was thrown with. \<open>Q_ASSERT\<close> aborts the
  program; it is the outcome \<open>AssertionFailed\<close>.
\<close>

datatype message =
    FileDoesNotExist
  | CouldNotRemoveFile
  | CouldNotCopyFile
  | ErrorWhileOpening
  | ErrorWhileWriting
  | CannotRemoveFile
  | CannotCreateDirectory
  | CannotCreateFile
  | CannotRemoveReadOnly
  | CannotSaveReadOnly

datatype exn = RuntimeError string message | LogicError message | AssertionFailed

text \<open>
  The spec's names for these failures (its section 7): \<open>NotFound\<close> is the
  \<open>RuntimeError\<close> of a missing source file, \<open>IOError\<close> every other \<open>RuntimeError\<close>.
\<close>

fun isNotFound :: "exn \<Rightarrow> bool" where
  "isNotFound (RuntimeError _ m) = (m = FileDoesNotExist)"
| "isNotFound _ = False"

fun isIOError :: "exn \<Rightarrow> bool" where
  "isIOError (RuntimeError _ m) = (m \<noteq> FileDoesNotExist)"
| "isIOError _ = False"

fun isLogicError :: "exn \<Rightarrow> bool" where
  "isLogicError (LogicError _) = True"
| "isLogicError _ = False"

text \<open>
  \<open>mSettings\<close> is a list of pointers to \<open>QSettings\<close> objects that only the \<open>IniFile\<close>
  owns; each entry pairs the pointer with the object it points to. Pointer 0 is null.
\<close>

type_synonym ptr = nat

record inifile =
  mFilepath :: path
  mTmpFilepath :: path
  mIsReadOnly :: bool
  mSettings :: "(ptr \<times> qsettings) list"
  mFileVersion :: cint

text \<open>\<open>QList::removeOne\<close> takes out the first entry for the pointer.\<close>

fun removeOne :: "ptr \<Rightarrow> (ptr \<times> qsettings) list \<Rightarrow> (ptr \<times> qsettings) list" where
  "removeOne p [] = []"
| "removeOne p ((h, q) # rest) = (if h = p then rest else (h, q) # removeOne p rest)"

definition new_ptr :: "(ptr \<times> qsettings) list \<Rightarrow> ptr" where
  "new_ptr ms = Suc (foldr max (map fst ms) 0)"

definition createQSettings :: "inifile \<Rightarrow> world \<Rightarrow> (exn + ptr) \<times> inifile \<times> world" where
  "createQSettings this w =
     (let settings = QSettings_new (mTmpFilepath this) w
      in if status settings \<noteq> NoError
         then (Inl (RuntimeError (mTmpFilepath this) ErrorWhileOpening), this,
               QSettings_delete settings w)
         else (let p = new_ptr (mSettings this)
               in (Inr p, this\<lparr>mSettings := mSettings this @ [(p, settings)]\<rparr>, w)))"

definition releaseQSettings :: "ptr \<Rightarrow> inifile \<Rightarrow> world \<Rightarrow> (exn + unit) \<times> inifile \<times> world" where
  "releaseQSettings p this w =
     (if p = 0 then (Inl AssertionFailed, this, w)
      else (case map_of (mSettings this) p of
              None \<Rightarrow> (Inl AssertionFailed, this, w)
            | Some q \<Rightarrow>
                (case QSettings_sync q w of
                   (q', w') \<Rightarrow>
                     if status q' = NoError
                     then (Inr (), this\<lparr>mSettings := removeOne p (mSettings this)\<rparr>,
                           QSettings_delete q' w')
                     else (Inr (), this\<lparr>mSettings := AList.update p q' (mSettings this)\<rparr>, w'))))"

text \<open>The source file the constructor opens (lines 37 to 40).\<close>

definition iniFilepath :: "path \<Rightarrow> bool \<Rightarrow> world \<Rightarrow> path" where
  "iniFilepath filepath restore w =
     (if (\<not> restore) \<or> (\<not> isExistingFile (filepath @ ''~'') w) then filepath
      else filepath @ ''~'')"

text \<open>The name of the temporary file (lines 49 to 53).\<close>

definition tmpFilepath :: "path \<Rightarrow> world \<Rightarrow> path" where
  "tmpFilepath ini w = absoluteFilePath (tempPath w) (''EDA4U/'' @ tmpFilename ini)"

definition IniFile :: "path \<Rightarrow> bool \<Rightarrow> bool \<Rightarrow> world \<Rightarrow> (exn + inifile) \<times> world" where
  "IniFile filepath restore readOnly w =
     (let ini = iniFilepath filepath restore w
      in if \<not> isExistingFile ini w then (Inl (RuntimeError ini FileDoesNotExist), w)
         else
          (let tmp = tmpFilepath ini w;
               made = mkPath (getParentDir tmp) w
           in case (if isExistingFile tmp w then QFile_remove tmp w else (True, w)) of
                (False, w1) \<Rightarrow> (Inl (RuntimeError tmp CouldNotRemoveFile), w1)
              | (True, w1) \<Rightarrow>
                 (case QFile_copy ini tmp w1 of
                    (False, w2) \<Rightarrow> (Inl (RuntimeError (ini @ '':'' @ tmp) CouldNotCopyFile), w2)
                  | (True, w2) \<Rightarrow>
                     (let this = \<lparr>mFilepath = filepath, mTmpFilepath = tmp,
                                  mIsReadOnly = readOnly, mSettings = [], mFileVersion = - 1\<rparr>
                      in case createQSettings this w2 of
                           (Inl e, this1, w3) \<Rightarrow> (Inl e, w3)
                         | (Inr s, this1, w3) \<Rightarrow>
                            (case map_of (mSettings this1) s of
                               None \<Rightarrow> (Inl AssertionFailed, w3)
                             | Some q \<Rightarrow>
                                (case QVariant_toInt (QSettings_value q ''meta/file_version'') of
                                   (version, ok) \<Rightarrow>
                                     (let this2 = this1\<lparr>mFileVersion := (if ok then version else - 1)\<rparr>
                                      in case releaseQSettings s this2 w3 of
                                           (Inl e, this3, w4) \<Rightarrow> (Inl e, w4)
                                         | (Inr u, this3, w4) \<Rightarrow> (Inr this3, w4))))))))"

text \<open>The destructor (lines 83 to 95); \<open>qDeleteAll\<close> destroys the handles still listed.\<close>

definition IniFile_destroy :: "inifile \<Rightarrow> world \<Rightarrow> world" where
  "IniFile_destroy this w =
     (let w1 = fold (\<lambda>(p, q). QSettings_delete q) (mSettings this) w;
          w2 = snd (QFile_remove (mTmpFilepath this) w1)
      in if \<not> mIsReadOnly this then snd (QFile_remove (mFilepath this @ ''~'') w2) else w2)"

definition setFileVersion :: "cint \<Rightarrow> inifile \<Rightarrow> world \<Rightarrow> (exn + unit) \<times> inifile \<times> world" where
  "setFileVersion version this w =
     (case createQSettings this w of
        (Inl e, this1, w1) \<Rightarrow> (Inl e, this1, w1)
      | (Inr s, this1, w1) \<Rightarrow>
          (case map_of (mSettings this1) s of
             None \<Rightarrow> (Inl AssertionFailed, this1, w1)
           | Some q \<Rightarrow>
              (let q' = QSettings_setValue ''meta/file_version'' (QString_number version) q;
                   this2 = this1\<lparr>mSettings := AList.update s q' (mSettings this1),
                                 mFileVersion := version\<rparr>
               in releaseQSettings s this2 w1)))"

definition remove :: "inifile \<Rightarrow> world \<Rightarrow> (exn + unit) \<times> world" where
  "remove this w =
     (if mIsReadOnly this then (Inl (LogicError CannotRemoveReadOnly), w)
      else
       (case (if QFile_exists (mFilepath this) w then QFile_remove (mFilepath this) w
              else (True, w)) of
          (ok1, w1) \<Rightarrow>
           (case (if QFile_exists (mFilepath this @ ''~'') w1
                  then QFile_remove (mFilepath this @ ''~'') w1 else (True, w1)) of
              (ok2, w2) \<Rightarrow>
               (case (if mSettings this = []
                      then (if QFile_exists (mTmpFilepath this) w2
                            then QFile_remove (mTmpFilepath this) w2 else (True, w2))
                      else (True, w2)) of
                  (ok3, w3) \<Rightarrow>
                    if \<not> (ok1 \<and> ok2 \<and> ok3)
                    then (Inl (RuntimeError (mFilepath this) CouldNotRemoveFile), w3)
                    else (Inr (), w3)))))"

text \<open>
  The \<open>foreach\<close> loop of \<open>save\<close> (lines 200 to 209): every handle is synced in turn, the
  loop leaves at the first one whose status is not \<open>NoError\<close>. The result tells whether
  the loop ran to its end.
\<close>

fun sync_all :: "(ptr \<times> qsettings) list \<Rightarrow> world \<Rightarrow> bool \<times> (ptr \<times> qsettings) list \<times> world" where
  "sync_all [] w = (True, [], w)"
| "sync_all ((p, q) # rest) w =
     (case QSettings_sync q w of
        (q', w') \<Rightarrow>
          if status q' \<noteq> NoError then (False, (p, q') # rest, w')
          else (case sync_all rest w' of (ok, rest', w'') \<Rightarrow> (ok, (p, q') # rest', w'')))"

text \<open>
  The statuses that flushing the open handles, one after the other in registry order,
  reports. This is the condition of \<open>save\<close> in the words of the specification (if any
  flush reports a non-clean status), written without the loop of the source;
  lemma \<open>sync_all_detects\<close> below compares it with what the loop \<open>sync_all\<close> answers.
\<close>

fun flush_statuses :: "(ptr \<times> qsettings) list \<Rightarrow> world \<Rightarrow> status list" where
  "flush_statuses [] w = []"
| "flush_statuses ((p, q) # rest) w =
     (case QSettings_sync q w of (q', w') \<Rightarrow> status q' # flush_statuses rest w')"

definition target :: "bool \<Rightarrow> inifile \<Rightarrow> path" where
  "target toOriginal this = (if toOriginal then mFilepath this else mFilepath this @ ''~'')"

definition save :: "bool \<Rightarrow> inifile \<Rightarrow> world \<Rightarrow> (exn + unit) \<times> inifile \<times> world" where
  "save toOriginal this w =
     (if mIsReadOnly this then (Inl (LogicError CannotSaveReadOnly), this, w)
      else
       (let filepath = target toOriginal this
        in case sync_all (mSettings this) w of
             (False, ms, w1) \<Rightarrow>
               (Inl (RuntimeError filepath ErrorWhileWriting), this\<lparr>mSettings := ms\<rparr>, w1)
           | (True, ms, w1) \<Rightarrow>
              (let this1 = this\<lparr>mSettings := ms\<rparr>
               in case (if isExistingFile filepath w1 then QFile_remove filepath w1
                        else (True, w1)) of
                    (False, w2) \<Rightarrow> (Inl (RuntimeError filepath CouldNotRemoveFile), this1, w2)
                  | (True, w2) \<Rightarrow>
                     (case QFile_copy (mTmpFilepath this) filepath w2 of
                        (False, w3) \<Rightarrow>
                          (Inl (RuntimeError (mTmpFilepath this @ '':'' @ filepath) CouldNotCopyFile),
                           this1, w3)
                      | (True, w3) \<Rightarrow>
                          if \<not> isExistingFile filepath w3
                          then (Inl (RuntimeError filepath ErrorWhileWriting), this1, w3)
                          else (Inr (), this1, w3)))))"

definition create :: "path \<Rightarrow> cint \<Rightarrow> world \<Rightarrow> (exn + inifile) \<times> world" where
  "create filepath version w =
     (case (if isExistingFile filepath w then QFile_remove filepath w else (True, w)) of
        (False, w1) \<Rightarrow> (Inl (RuntimeError filepath CannotRemoveFile), w1)
      | (True, w1) \<Rightarrow>
          if \<not> mkPath (getParentDir filepath) w1
          then (Inl (RuntimeError filepath CannotCreateDirectory), w1)
          else
           (case QFile_open_WriteOnly (filepath @ ''~'') w1 of
              (False, w2) \<Rightarrow> (Inl (RuntimeError filepath CannotCreateFile), w2)
            | (True, w2) \<Rightarrow>
               (case IniFile filepath True False w2 of
                  (Inl e, w3) \<Rightarrow> (Inl e, w3)
                | (Inr obj, w3) \<Rightarrow>
                    if - 1 <s version then
                      (case setFileVersion version obj w3 of
                         (Inl e, obj1, w4) \<Rightarrow> (Inl e, IniFile_destroy obj1 w4)
                       | (Inr u, obj1, w4) \<Rightarrow>
                          (case save False obj1 w4 of
                             (Inl e, obj2, w5) \<Rightarrow> (Inl e, IniFile_destroy obj2 w5)
                           | (Inr u', obj2, w5) \<Rightarrow> (Inr obj2, w5)))
                    else (Inr obj, w3))))"

text \<open>
  Every handle that \<open>createQSettings\<close> registers is bound to the temporary file.
\<close>

definition handles_on_tmp :: "inifile \<Rightarrow> bool" where
  "handles_on_tmp this = list_all (\<lambda>(p, q). fileName q = mTmpFilepath this) (mSettings this)"


text \<open>A path is usable when nothing forbids removing, writing or reading it.\<close>

definition usable :: "world \<Rightarrow> path \<Rightarrow> bool" where
  "usable w x = (x \<notin> unremovable w \<and> x \<notin> unwritable w \<and> x \<notin> unreadable w)"

section \<open>Example stores and worlds\<close>

text \<open>
  A store file \<open>/a\<close> at version 3 with a backup \<open>/a~\<close> at version 7, and nothing in
  the way of any file operation.
\<close>

definition w_ex :: world where
  "w_ex = \<lparr>files = [''/a'' \<mapsto> Ini [(''meta/file_version'', ''3'')],
                      ''/a~'' \<mapsto> Ini [(''meta/file_version'', ''7'')]],
           tempPath = ''/tmp'', unremovable = {}, unwritable = {}, unreadable = {},
           mkPathFails = {}\<rparr>"

text \<open>A store file that the INI reader rejects, and one without a version entry.\<close>

definition w_bad :: world where
  "w_bad = \<lparr>files = [''/a'' \<mapsto> Malformed],
            tempPath = ''/tmp'', unremovable = {}, unwritable = {}, unreadable = {},
            mkPathFails = {}\<rparr>"

definition w_plain :: world where
  "w_plain = \<lparr>files = [''/a'' \<mapsto> Ini [(''name'', ''x'')],
                         ''/a~'' \<mapsto> Ini [(''meta/file_version'', ''seven'')]],
              tempPath = ''/tmp'', unremovable = {}, unwritable = {}, unreadable = {},
              mkPathFails = {}\<rparr>"

text \<open>
  An open store on \<open>/a\<close> with its temporary copy \<open>/tmp/EDA4U/x\<close>, in a world where
  the copy is there, and in one where the copy can no longer be written.
\<close>

definition s_ex :: inifile where
  "s_ex = \<lparr>mFilepath = ''/a'', mTmpFilepath = ''/tmp/EDA4U/x'', mIsReadOnly = False,
           mSettings = [], mFileVersion = 3\<rparr>"

definition w_open :: world where
  "w_open = \<lparr>files = [''/a'' \<mapsto> Ini [(''meta/file_version'', ''3'')],
                        ''/tmp/EDA4U/x'' \<mapsto> Ini [(''meta/file_version'', ''3'')]],
             tempPath = ''/tmp'', unremovable = {}, unwritable = {}, unreadable = {},
             mkPathFails = {}\<rparr>"

definition w_locked :: world where
  "w_locked = w_open\<lparr>unwritable := {''/tmp/EDA4U/x''}\<rparr>"

text \<open>The same store with one handle whose change could not be written.\<close>

definition s_dirty :: inifile where
  "s_dirty = s_ex\<lparr>mSettings :=
       [(1, \<lparr>fileName = ''/tmp/EDA4U/x'', entries = [(''meta/file_version'', ''3'')],
             changes = [(''meta/file_version'', ''5'')], status = AccessError\<rparr>)],
     mFileVersion := 5\<rparr>"

text \<open>The same store with one handle that holds an unwritten change.\<close>

definition s_editing :: inifile where
  "s_editing = s_ex\<lparr>mSettings :=
       [(1, \<lparr>fileName = ''/tmp/EDA4U/x'', entries = [(''meta/file_version'', ''3'')],
             changes = [(''meta/file_version'', ''5'')], status = NoError\<rparr>)],
     mFileVersion := 5\<rparr>"

text \<open>What opening \<open>/a\<close> in \<open>w_ex\<close> with \<open>restore\<close> set gives.\<close>

definition s_restored :: inifile where
  "s_restored = \<lparr>mFilepath = ''/a'', mTmpFilepath = tmpFilepath ''/a~'' w_ex,
                  mIsReadOnly = False, mSettings = [], mFileVersion = 7\<rparr>"

text \<open>What opening \<open>/a\<close> in \<open>w_ex\<close> without \<open>restore\<close> gives.\<close>

definition s_plain :: inifile where
  "s_plain = \<lparr>mFilepath = ''/a'', mTmpFilepath = tmpFilepath ''/a'' w_ex,
               mIsReadOnly = False, mSettings = [], mFileVersion = 3\<rparr>"

text \<open>
  The same store with two handles: the first has nothing to write, the second holds an
  unwritten change.
\<close>

definition s_two :: inifile where
  "s_two = s_ex\<lparr>mSettings :=
       [(1, \<lparr>fileName = ''/tmp/EDA4U/x'', entries = [(''meta/file_version'', ''3'')],
             changes = [], status = NoError\<rparr>),
        (2, \<lparr>fileName = ''/tmp/EDA4U/x'', entries = [(''meta/file_version'', ''3'')],
             changes = [(''meta/file_version'', ''5'')], status = NoError\<rparr>)],
     mFileVersion := 5\<rparr>"



section \<open>Lemmas\<close>

subsection \<open>Decimal round trip\<close>

lemma of_char_digit_char: "d < 10 \<Longrightarrow> (of_char (digit_char d) :: nat) = 48 + d"
proof -
  assume "d < 10"
  then have "d \<in> {0, 1, 2, 3, 4, 5, 6, 7, 8, 9}" by auto
  then show ?thesis by (auto simp add: digit_char_def)
qed

lemma is_digit_digit_char: "d < 10 \<Longrightarrow> is_digit (digit_char d)"
  by (simp add: is_digit_def of_char_digit_char)

lemma digit_val_digit_char: "d < 10 \<Longrightarrow> digit_val (digit_char d) = d"
  by (simp add: digit_val_def of_char_digit_char)

lemma number_nat_digits: "list_all is_digit (number_nat n)"
proof (induction n rule: number_nat.induct)
  case (1 n)
  show ?case
  proof (cases "n < 10")
    case True
    then show ?thesis by (subst number_nat.simps) (simp add: is_digit_digit_char)
  next
    case False
    with 1 show ?thesis by (subst number_nat.simps) (simp add: is_digit_digit_char)
  qed
qed

lemma number_nat_not_empty: "number_nat n \<noteq> []"
  by (subst number_nat.simps) simp

lemma number_nat_value: "foldl (\<lambda>a c. 10 * a + digit_val c) 0 (number_nat n) = n"
proof (induction n rule: number_nat.induct)
  case (1 n)
  show ?case
  proof (cases "n < 10")
    case True
    then show ?thesis by (subst number_nat.simps) (simp add: digit_val_digit_char)
  next
    case False
    with 1 show ?thesis by (subst number_nat.simps) (simp add: digit_val_digit_char)
  qed
qed

lemma parse_nat_number_nat: "parse_nat (number_nat n) = Some n"
  by (simp add: parse_nat_def number_nat_digits number_nat_not_empty number_nat_value)

lemma number_nat_head: "\<exists>c r. number_nat n = c # r \<and> is_digit c"
proof -
  obtain c r where cr: "number_nat n = c # r"
    using number_nat_not_empty [of n] by (cases "number_nat n") auto
  with number_nat_digits [of n] have "is_digit c" by simp
  with cr show ?thesis by blast
qed

lemma is_digit_not_sign: "is_digit c \<Longrightarrow> c \<noteq> CHR ''-'' \<and> c \<noteq> CHR ''+''"
  by (auto simp add: is_digit_def)

lemma toLongLong_QString_number: "toLongLong (QString_number v) = Some (sint v)"
proof -
  have lo: "- (2 ^ 63) \<le> sint v" and hi: "sint v < 2 ^ 63"
    using sint_ge [of v] sint_lt [of v] by simp_all
  show ?thesis
  proof (cases "sint v < 0")
    case True
    then show ?thesis
      using lo hi by (simp add: QString_number_def toLongLong_def parse_nat_number_nat)
  next
    case False
    obtain c r where cr: "number_nat (nat (sint v)) = c # r" and d: "is_digit c"
      using number_nat_head by blast
    have "parse_nat (c # r) = Some (nat (sint v))"
      using parse_nat_number_nat [of "nat (sint v)"] cr by simp
    then show ?thesis
      using False lo hi is_digit_not_sign [OF d]
      by (simp add: QString_number_def toLongLong_def cr)
  qed
qed

lemma QVariant_toInt_QString_number: "QVariant_toInt (Some (QString_number v)) = (v, True)"
  by (simp add: QVariant_toInt_def toLongLong_QString_number)

subsection \<open>Pointers\<close>

lemma fst_le_foldr_max:
  fixes ms :: "(ptr \<times> qsettings) list"
  shows "(h, q) \<in> set ms \<Longrightarrow> h \<le> foldr max (map fst ms) 0"
  by (induction ms) (auto simp add: le_max_iff_disj)

lemma new_ptr_fresh: "(new_ptr ms, q) \<notin> set ms"
  using fst_le_foldr_max [of "new_ptr ms" q ms] by (auto simp add: new_ptr_def)

lemma new_ptr_not_null: "new_ptr ms \<noteq> 0"
  by (simp add: new_ptr_def)

lemma map_of_fresh: "\<forall>q. (p, q) \<notin> set ms \<Longrightarrow> map_of (ms @ [(p, q)]) p = Some q"
  by (induction ms) auto

lemma update_fresh: "\<forall>q. (p, q) \<notin> set ms \<Longrightarrow> AList.update p q' (ms @ [(p, q)]) = ms @ [(p, q')]"
  by (induction ms) auto

lemma removeOne_fresh: "\<forall>q. (p, q) \<notin> set ms \<Longrightarrow> removeOne p (ms @ [(p, q)]) = ms"
  by (induction ms) auto

subsection \<open>What a sync leaves alone\<close>

lemma QSettings_sync_fileName: "fileName (fst (QSettings_sync q w)) = fileName q"
  by (simp add: QSettings_sync_def setStatus_def split: prod.splits)

lemma QSettings_sync_other_file:
  "p \<noteq> fileName q \<Longrightarrow> files (snd (QSettings_sync q w)) p = files w p"
  by (simp add: QSettings_sync_def split: prod.splits)

lemma QSettings_sync_no_changes: "changes q = [] \<Longrightarrow> snd (QSettings_sync q w) = w"
  by (simp add: QSettings_sync_def split: prod.splits)

lemma QSettings_sync_status_kept:
  "status q \<noteq> NoError \<Longrightarrow> status (fst (QSettings_sync q w)) \<noteq> NoError"
  by (simp add: QSettings_sync_def setStatus_def split: prod.splits)

lemma QSettings_sync_clean_changes:
  "status (fst (QSettings_sync q w)) = NoError \<Longrightarrow> changes (fst (QSettings_sync q w)) = []"
  by (auto simp add: QSettings_sync_def setStatus_def split: prod.splits if_splits)

lemma sync_all_other_file:
  "\<forall>(h, q) \<in> set ms. fileName q \<noteq> p \<Longrightarrow> files (snd (snd (sync_all ms w))) p = files w p"
proof (induction ms arbitrary: w)
  case Nil
  then show ?case by simp
next
  case (Cons a ms)
  obtain h q where a: "a = (h, q)" by (cases a)
  obtain q' w' where s: "QSettings_sync q w = (q', w')" by (cases "QSettings_sync q w")
  from Cons.prems a have ne: "p \<noteq> fileName q" and rest: "\<forall>(h, q) \<in> set ms. fileName q \<noteq> p"
    by auto
  have w': "files w' p = files w p"
    using QSettings_sync_other_file [OF ne, of w] s by simp
  obtain ok rest' w'' where r: "sync_all ms w' = (ok, rest', w'')" by (cases "sync_all ms w'")
  show ?case
    using Cons.IH [OF rest, of w'] w' by (simp add: a s r)
qed

lemma sync_all_dirty_handle:
  "(h, q) \<in> set ms \<Longrightarrow> status q \<noteq> NoError \<Longrightarrow> \<not> fst (sync_all ms w)"
proof (induction ms arbitrary: w)
  case Nil
  then show ?case by simp
next
  case (Cons a ms)
  obtain h' q' where a: "a = (h', q')" by (cases a)
  obtain q'' w' where s: "QSettings_sync q' w = (q'', w')" by (cases "QSettings_sync q' w")
  show ?case
  proof (cases "status q'' = NoError")
    case False
    then show ?thesis by (simp add: a s)
  next
    case True
    with QSettings_sync_status_kept [of q' w] s have "status q' = NoError" by auto
    with Cons.prems a have "(h, q) \<in> set ms" by auto
    moreover obtain ok rest' w'' where r: "sync_all ms w' = (ok, rest', w'')"
      by (cases "sync_all ms w'")
    ultimately show ?thesis
      using Cons.IH [OF _ Cons.prems(2), of w'] True by (simp add: a s)
  qed
qed

lemma remove_step:
  assumes "(if QFile_exists p w then QFile_remove p w else (True, w)) = (True, w1)"
  shows "files w1 p = None" and "files w x = None \<Longrightarrow> files w1 x = None"
  using assms by (auto simp add: QFile_exists_def QFile_remove_def split: if_splits)


text \<open>
  The loop of \<open>save\<close> goes through exactly when every flush reports a clean status: it
  stops at the first handle whose flush does not.
\<close>

lemma sync_all_detects:
  "fst (sync_all ms w) \<longleftrightarrow> (\<forall>st \<in> set (flush_statuses ms w). st = NoError)"
proof (induction ms arbitrary: w)
  case Nil
  then show ?case by simp
next
  case (Cons a ms)
  obtain h q where a: "a = (h, q)" by (cases a)
  obtain q' w' where s: "QSettings_sync q w = (q', w')" by (cases "QSettings_sync q w")
  obtain ok rest' w'' where r: "sync_all ms w' = (ok, rest', w'')" by (cases "sync_all ms w'")
  from Cons.IH [of w'] r show ?case
    by (simp add: a s)
qed

text \<open>A handle with an unwritten change on a file that cannot be written.\<close>

lemma QSettings_sync_unwritable:
  "changes q \<noteq> [] \<Longrightarrow> fileName q \<in> unwritable w \<Longrightarrow> status (fst (QSettings_sync q w)) \<noteq> NoError"
  by (auto simp add: QSettings_sync_def setStatus_def split: prod.splits)

subsection \<open>Acquiring and releasing a handle\<close>

lemma QSettings_new_simps:
  "fileName (QSettings_new p w) = p" "changes (QSettings_new p w) = []"
  by (simp_all add: QSettings_new_def split: prod.splits)

lemma QSettings_delete_no_changes: "changes q = [] \<Longrightarrow> QSettings_delete q w = w"
  by (simp add: QSettings_delete_def QSettings_sync_no_changes)

lemma createQSettings_fails:
  "status (QSettings_new (mTmpFilepath this) w) \<noteq> NoError \<Longrightarrow>
   createQSettings this w = (Inl (RuntimeError (mTmpFilepath this) ErrorWhileOpening), this, w)"
  by (simp add: createQSettings_def QSettings_delete_no_changes QSettings_new_simps)

lemma createQSettings_succeeds:
  "status (QSettings_new (mTmpFilepath this) w) = NoError \<Longrightarrow>
   createQSettings this w =
     (Inr (new_ptr (mSettings this)),
      this\<lparr>mSettings := mSettings this @ [(new_ptr (mSettings this), QSettings_new (mTmpFilepath this) w)]\<rparr>,
      w)"
  by (simp add: createQSettings_def Let_def)

lemma releaseQSettings_last:
  assumes fresh: "\<forall>q. (p, q) \<notin> set ms" and p: "p \<noteq> 0"
    and ms: "mSettings this = ms @ [(p, q)]"
    and sync: "QSettings_sync q w = (q', w')"
  shows "releaseQSettings p this w =
     (if status q' = NoError then (Inr (), this\<lparr>mSettings := ms\<rparr>, w')
      else (Inr (), this\<lparr>mSettings := ms @ [(p, q')]\<rparr>, w'))"
proof -
  have clean: "QSettings_delete q' w' = w'" if "status q' = NoError"
  proof -
    from that sync QSettings_sync_clean_changes [of q w] have "changes q' = []" by simp
    then show ?thesis by (rule QSettings_delete_no_changes)
  qed
  have m: "map_of (mSettings this) p = Some q"
    by (simp only: ms map_of_fresh [OF fresh])
  have u: "AList.update p q' (mSettings this) = ms @ [(p, q')]"
    by (simp only: ms update_fresh [OF fresh])
  have r: "removeOne p (mSettings this) = ms"
    by (simp only: ms removeOne_fresh [OF fresh])
  show ?thesis
    using p clean by (simp add: releaseQSettings_def m u r sync)
qed

text \<open>What \<open>setFileVersion\<close> does, case by case.\<close>

lemma setFileVersion_cases:
  fixes this w version
  defines "tmp \<equiv> mTmpFilepath this"
  defines "p \<equiv> new_ptr (mSettings this)"
  defines "q \<equiv> QSettings_setValue ''meta/file_version'' (QString_number version) (QSettings_new tmp w)"
  shows "setFileVersion version this w =
     (if status (QSettings_new tmp w) \<noteq> NoError
      then (Inl (RuntimeError tmp ErrorWhileOpening), this, w)
      else if status (fst (QSettings_sync q w)) = NoError
      then (Inr (), this\<lparr>mFileVersion := version\<rparr>, snd (QSettings_sync q w))
      else (Inr (), this\<lparr>mSettings := mSettings this @ [(p, fst (QSettings_sync q w))],
                         mFileVersion := version\<rparr>, snd (QSettings_sync q w)))"
proof (cases "status (QSettings_new tmp w) = NoError")
  case False
  then show ?thesis
    by (simp add: setFileVersion_def createQSettings_fails tmp_def)
next
  case True
  have fresh: "\<forall>q. (p, q) \<notin> set (mSettings this)"
    by (simp add: p_def new_ptr_fresh)
  have p0: "p \<noteq> 0" by (simp add: p_def new_ptr_not_null)
  obtain q' w' where sync: "QSettings_sync q w = (q', w')" by (cases "QSettings_sync q w")
  let ?new = "QSettings_new tmp w"
  let ?obj1 = "this\<lparr>mSettings := mSettings this @ [(p, ?new)]\<rparr>"
  let ?obj2 = "this\<lparr>mSettings := mSettings this @ [(p, q)], mFileVersion := version\<rparr>"
  have create: "createQSettings this w = (Inr p, ?obj1, w)"
    using True createQSettings_succeeds [of this w] by (simp add: tmp_def p_def)
  have m: "map_of (mSettings ?obj1) p = Some ?new"
    using map_of_fresh [OF fresh] by simp
  have rel: "releaseQSettings p ?obj2 w =
     (if status q' = NoError then (Inr (), ?obj2\<lparr>mSettings := mSettings this\<rparr>, w')
      else (Inr (), ?obj2\<lparr>mSettings := mSettings this @ [(p, q')]\<rparr>, w'))"
    by (rule releaseQSettings_last [OF fresh p0 _ sync]) simp
  have "setFileVersion version this w = releaseQSettings p ?obj2 w"
    unfolding setFileVersion_def create
    by (simp only: prod.case sum.case m option.case Let_def)
      (simp add: update_fresh [OF fresh] q_def)
  with True rel show ?thesis
    by (simp add: sync)
qed


subsection \<open>Opening and saving when nothing fails\<close>

lemma tmpFilepath_files [simp]: "tmpFilepath ini (w\<lparr>files := f\<rparr>) = tmpFilepath ini w"
  by (simp add: tmpFilepath_def)

lemma IniFile_not_found:
  "files w (iniFilepath p r w) = None \<Longrightarrow>
   IniFile p r ro w = (Inl (RuntimeError (iniFilepath p r w) FileDoesNotExist), w)"
  by (simp add: IniFile_def isExistingFile_def)

lemma world_remove_absent: "files w p = None \<Longrightarrow> w\<lparr>files := (files w)(p := None)\<rparr> = w"
  by (simp add: fun_upd_idem)

lemma IniFile_opened:
  assumes src: "files w (iniFilepath p r w) = Some (Ini kv)"
    and ne: "tmpFilepath (iniFilepath p r w) w \<noteq> iniFilepath p r w"
    and io: "iniFilepath p r w \<notin> unreadable w"
            "files w (tmpFilepath (iniFilepath p r w) w) = None
               \<or> tmpFilepath (iniFilepath p r w) w \<notin> unremovable w"
            "tmpFilepath (iniFilepath p r w) w \<notin> unwritable w"
            "tmpFilepath (iniFilepath p r w) w \<notin> unreadable w"
  shows "IniFile p r ro w =
     (Inr \<lparr>mFilepath = p, mTmpFilepath = tmpFilepath (iniFilepath p r w) w,
            mIsReadOnly = ro, mSettings = [],
            mFileVersion = (case QVariant_toInt (map_of kv ''meta/file_version'') of
                              (version, ok) \<Rightarrow> if ok then version else - 1)\<rparr>,
      w\<lparr>files := (files w)(tmpFilepath (iniFilepath p r w) w \<mapsto> Ini kv)\<rparr>)"
proof -
  define ini where "ini = iniFilepath p r w"
  define tmp where "tmp = tmpFilepath ini w"
  note folded = src ne io
  note f = folded [folded ini_def, folded tmp_def]
  let ?w1 = "w\<lparr>files := (files w)(tmp := None)\<rparr>"
  let ?w2 = "w\<lparr>files := (files w)(tmp \<mapsto> Ini kv)\<rparr>"
  let ?obj = "\<lparr>mFilepath = p, mTmpFilepath = tmp, mIsReadOnly = ro, mSettings = [],
                mFileVersion = - 1\<rparr>"
  let ?q = "\<lparr>fileName = tmp, entries = kv, changes = [], status = NoError\<rparr>"
  have ex: "isExistingFile ini w" using f(1) by (simp add: isExistingFile_def)
  have rm: "(if isExistingFile tmp w then QFile_remove tmp w else (True, w)) = (True, ?w1)"
    using f(4) by (auto simp add: isExistingFile_def QFile_remove_def world_remove_absent)
  have cp: "QFile_copy ini tmp ?w1 = (True, ?w2)"
    using f by (simp add: QFile_copy_def)
  have new: "QSettings_new tmp ?w2 = ?q"
    using f by (simp add: QSettings_new_def loadFile_def)
  have create: "createQSettings ?obj ?w2 = (Inr (Suc 0), ?obj\<lparr>mSettings := [(Suc 0, ?q)]\<rparr>, ?w2)"
    using createQSettings_succeeds [of ?obj ?w2] new by (simp add: new_ptr_def)
  have sync: "QSettings_sync ?q ?w2 = (?q, ?w2)"
    using f by (simp add: QSettings_sync_def loadFile_def)
  have rel: "releaseQSettings (Suc 0) \<lparr>mFilepath = p, mTmpFilepath = tmp, mIsReadOnly = ro,
        mSettings = [(Suc 0, ?q)], mFileVersion = v\<rparr> ?w2
      = (Inr (), \<lparr>mFilepath = p, mTmpFilepath = tmp, mIsReadOnly = ro,
        mSettings = [], mFileVersion = v\<rparr>, ?w2)" for v
    by (simp add: releaseQSettings_def sync QSettings_delete_no_changes)
  obtain version ok where v: "QVariant_toInt (map_of kv ''meta/file_version'') = (version, ok)"
    by (cases "QVariant_toInt (map_of kv ''meta/file_version'')")
  have "IniFile p r ro w =
     (Inr \<lparr>mFilepath = p, mTmpFilepath = tmp, mIsReadOnly = ro, mSettings = [],
            mFileVersion = (if ok then version else - 1)\<rparr>, ?w2)"
    unfolding IniFile_def
    by (simp add: Let_def ini_def [symmetric] tmp_def [symmetric] ex rm cp create
        QSettings_value_def v rel)
  then show ?thesis
    by (simp add: v ini_def tmp_def)
qed


text \<open>Every way the constructor can end once the source file is there.\<close>

lemma IniFile_eq:
  fixes p r ro w
  defines "ini \<equiv> iniFilepath p r w"
  defines "tmp \<equiv> tmpFilepath ini w"
  assumes src: "files w ini = Some c"
  shows "IniFile p r ro w =
     (if files w tmp \<noteq> None \<and> tmp \<in> unremovable w
      then (Inl (RuntimeError tmp CouldNotRemoveFile), w)
      else if tmp = ini \<or> ini \<in> unreadable w \<or> tmp \<in> unwritable w
      then (Inl (RuntimeError (ini @ '':'' @ tmp) CouldNotCopyFile),
            w\<lparr>files := (files w)(tmp := None)\<rparr>)
      else if tmp \<in> unreadable w
      then (Inl (RuntimeError tmp ErrorWhileOpening), w\<lparr>files := (files w)(tmp \<mapsto> c)\<rparr>)
      else (case c of
              Malformed \<Rightarrow>
                (Inl (RuntimeError tmp ErrorWhileOpening), w\<lparr>files := (files w)(tmp \<mapsto> c)\<rparr>)
            | Ini kv \<Rightarrow>
                (Inr \<lparr>mFilepath = p, mTmpFilepath = tmp, mIsReadOnly = ro, mSettings = [],
                       mFileVersion = (case QVariant_toInt (map_of kv ''meta/file_version'') of
                                         (version, ok) \<Rightarrow> if ok then version else - 1)\<rparr>,
                 w\<lparr>files := (files w)(tmp \<mapsto> c)\<rparr>)))"
proof -
  let ?w1 = "w\<lparr>files := (files w)(tmp := None)\<rparr>"
  let ?w2 = "w\<lparr>files := (files w)(tmp \<mapsto> c)\<rparr>"
  let ?obj = "\<lparr>mFilepath = p, mTmpFilepath = tmp, mIsReadOnly = ro, mSettings = [],
                mFileVersion = - 1\<rparr>"
  have ex: "isExistingFile ini w" using src by (simp add: isExistingFile_def)
  show ?thesis
  proof (cases "files w tmp = None \<or> tmp \<notin> unremovable w")
    case False
    then have "(if isExistingFile tmp w then QFile_remove tmp w else (True, w)) = (False, w)"
      by (simp add: isExistingFile_def QFile_remove_def)
    then have "IniFile p r ro w = (Inl (RuntimeError tmp CouldNotRemoveFile), w)"
      unfolding IniFile_def
      by (simp add: Let_def ini_def [symmetric] tmp_def [symmetric] ex)
    with False show ?thesis by simp
  next
    case removable: True
    then have rm: "(if isExistingFile tmp w then QFile_remove tmp w else (True, w)) = (True, ?w1)"
      by (auto simp add: isExistingFile_def QFile_remove_def world_remove_absent)
    show ?thesis
    proof (cases "tmp \<noteq> ini \<and> ini \<notin> unreadable w \<and> tmp \<notin> unwritable w")
      case False
      with src have "QFile_copy ini tmp ?w1 = (False, ?w1)"
        by (auto simp add: QFile_copy_def)
      with rm have "IniFile p r ro w = (Inl (RuntimeError (ini @ '':'' @ tmp) CouldNotCopyFile), ?w1)"
        unfolding IniFile_def
        by (simp add: Let_def ini_def [symmetric] tmp_def [symmetric] ex)
      with removable False show ?thesis by auto
    next
      case copyable: True
      with src have cp: "QFile_copy ini tmp ?w1 = (True, ?w2)"
        by (auto simp add: QFile_copy_def)
      show ?thesis
      proof (cases "tmp \<notin> unreadable w \<and> (\<exists>kv. c = Ini kv)")
        case False
        then have "status (QSettings_new tmp ?w2) \<noteq> NoError"
          by (cases c) (auto simp add: QSettings_new_def loadFile_def)
        then have "createQSettings ?obj ?w2 = (Inl (RuntimeError tmp ErrorWhileOpening), ?obj, ?w2)"
          using createQSettings_fails [of ?obj ?w2] by simp
        with rm cp have "IniFile p r ro w = (Inl (RuntimeError tmp ErrorWhileOpening), ?w2)"
          unfolding IniFile_def
          by (simp add: Let_def ini_def [symmetric] tmp_def [symmetric] ex)
        with removable copyable False show ?thesis by (cases c) auto
      next
        case True
        then obtain kv where kv: "c = Ini kv" and rd: "tmp \<notin> unreadable w" by blast
        have "IniFile p r ro w =
           (Inr \<lparr>mFilepath = p, mTmpFilepath = tmp, mIsReadOnly = ro, mSettings = [],
                  mFileVersion = (case QVariant_toInt (map_of kv ''meta/file_version'') of
                                    (version, ok) \<Rightarrow> if ok then version else - 1)\<rparr>,
            ?w2)"
          using IniFile_opened [where w = w and p = p and r = r and kv = kv and ro = ro]
            src copyable removable rd
          by (simp add: ini_def tmp_def kv)
        with removable copyable rd kv show ?thesis by auto
      qed
    qed
  qed
qed

lemma IniFile_success:
  assumes "fst (IniFile p r ro w) = Inr this"
  shows "\<exists>kv. files w (iniFilepath p r w) = Some (Ini kv)
          \<and> tmpFilepath (iniFilepath p r w) w \<noteq> iniFilepath p r w
          \<and> this = \<lparr>mFilepath = p, mTmpFilepath = tmpFilepath (iniFilepath p r w) w,
                     mIsReadOnly = ro, mSettings = [],
                     mFileVersion = (case QVariant_toInt (map_of kv ''meta/file_version'') of
                                       (version, ok) \<Rightarrow> if ok then version else - 1)\<rparr>
          \<and> snd (IniFile p r ro w)
              = w\<lparr>files := (files w)(tmpFilepath (iniFilepath p r w) w \<mapsto> Ini kv)\<rparr>"
proof (cases "files w (iniFilepath p r w)")
  case None
  with assms show ?thesis by (simp add: IniFile_not_found)
next
  case (Some c)
  from assms show ?thesis
    unfolding IniFile_eq [OF Some]
    by (cases c) (auto simp add: Some split: if_splits)
qed

lemma IniFile_failure_opening:
  assumes "fst (IniFile p r ro w) = Inl (RuntimeError x ErrorWhileOpening)"
  shows "\<exists>c. files w (iniFilepath p r w) = Some c
          \<and> x = tmpFilepath (iniFilepath p r w) w
          \<and> snd (IniFile p r ro w)
              = w\<lparr>files := (files w)(tmpFilepath (iniFilepath p r w) w \<mapsto> c)\<rparr>"
proof (cases "files w (iniFilepath p r w)")
  case None
  with assms show ?thesis by (simp add: IniFile_not_found)
next
  case (Some c)
  from assms show ?thesis
    unfolding IniFile_eq [OF Some]
    by (cases c) (auto simp add: Some split: if_splits)
qed

lemma IniFile_NotFound_iff:
  "(\<exists>e. fst (IniFile p r ro w) = Inl e \<and> isNotFound e) \<longleftrightarrow> files w (iniFilepath p r w) = None"
proof (cases "files w (iniFilepath p r w)")
  case None
  then show ?thesis by (simp add: IniFile_not_found)
next
  case (Some c)
  show ?thesis
    unfolding IniFile_eq [OF Some]
    by (cases c) (auto simp add: Some split: if_splits)
qed

subsection \<open>Saving\<close>

lemma merge_single: "merge [(k, v)] kv = AList.update k v kv"
  by (simp add: merge_def)

lemma setFileVersion_written:
  assumes "files w (mTmpFilepath this) = Some (Ini kv)"
    and "mTmpFilepath this \<notin> unreadable w" and "mTmpFilepath this \<notin> unwritable w"
  shows "setFileVersion v this w =
     (Inr (), this\<lparr>mFileVersion := v\<rparr>,
      w\<lparr>files := (files w)(mTmpFilepath this \<mapsto>
            Ini (AList.update ''meta/file_version'' (QString_number v) kv))\<rparr>)"
  using assms
  by (simp add: setFileVersion_cases QSettings_new_def loadFile_def QSettings_setValue_def
      QSettings_sync_def merge_single)

text \<open>What a successful \<open>save\<close> has done.\<close>

lemma save_success:
  assumes "save b this w = (Inr (), this', w')"
  shows "\<exists>ms ws c. sync_all (mSettings this) w = (True, ms, ws)
          \<and> this' = this\<lparr>mSettings := ms\<rparr>
          \<and> files ws (mTmpFilepath this) = Some c
          \<and> mTmpFilepath this \<noteq> target b this
          \<and> w' = ws\<lparr>files := (files ws)(target b this \<mapsto> c)\<rparr>"
proof -
  from assms have rw: "\<not> mIsReadOnly this" by (auto simp add: save_def)
  obtain ok ms ws where s: "sync_all (mSettings this) w = (ok, ms, ws)"
    by (cases "sync_all (mSettings this) w")
  with assms rw have ok: "ok" by (cases ok) (auto simp add: save_def)
  let ?t = "target b this" and ?tmp = "mTmpFilepath this"
  obtain ok1 w2 where rm: "(if isExistingFile ?t ws then QFile_remove ?t ws else (True, ws)) = (ok1, w2)"
    by (cases "if isExistingFile ?t ws then QFile_remove ?t ws else (True, ws)")
  with assms rw s ok have ok1: "ok1" by (cases ok1) (auto simp add: save_def Let_def)
  obtain ok2 w3 where cp: "QFile_copy ?tmp ?t w2 = (ok2, w3)"
    by (cases "QFile_copy ?tmp ?t w2")
  with assms rw s ok rm ok1 have ok2: "ok2" and res: "this' = this\<lparr>mSettings := ms\<rparr>" "w' = w3"
    by (cases ok2; auto simp add: save_def Let_def split: if_splits)+
  from rm ok1 have w2: "w2 = ws\<lparr>files := (files ws)(?t := None)\<rparr>"
    by (auto simp add: isExistingFile_def QFile_remove_def world_remove_absent split: if_splits)
  from cp ok2 obtain c where c: "files w2 ?tmp = Some c" and w3: "w3 = w2\<lparr>files := (files w2)(?t \<mapsto> c)\<rparr>"
    by (auto simp add: QFile_copy_def split: option.splits if_splits)
  from c w2 have ne: "?tmp \<noteq> ?t" and c': "files ws ?tmp = Some c"
    by (auto split: if_splits)
  from w3 w2 have "w3 = ws\<lparr>files := (files ws)(?t \<mapsto> c)\<rparr>" by simp
  with s ok res c' ne show ?thesis by simp
qed

lemma save_done:
  assumes "\<not> mIsReadOnly this" and "mSettings this = []"
    and "files w (mTmpFilepath this) = Some c" and "mTmpFilepath this \<notin> unreadable w"
    and "target b this \<noteq> mTmpFilepath this"
    and "files w (target b this) = None \<or> target b this \<notin> unremovable w"
    and "target b this \<notin> unwritable w"
  shows "save b this w = (Inr (), this, w\<lparr>files := (files w)(target b this \<mapsto> c)\<rparr>)"
proof -
  let ?t = "target b this" and ?tmp = "mTmpFilepath this"
  let ?w1 = "w\<lparr>files := (files w)(?t := None)\<rparr>"
  have rm: "(if isExistingFile ?t w then QFile_remove ?t w else (True, w)) = (True, ?w1)"
    using assms(6) by (auto simp add: isExistingFile_def QFile_remove_def world_remove_absent)
  have cp: "QFile_copy ?tmp ?t ?w1 = (True, w\<lparr>files := (files w)(?t \<mapsto> c)\<rparr>)"
    using assms by (auto simp add: QFile_copy_def)
  have same: "this\<lparr>mSettings := []\<rparr> = this"
    using assms(2) by (cases this) simp
  have ex: "isExistingFile ?t (w\<lparr>files := (files w)(?t \<mapsto> c)\<rparr>)"
    by (simp add: isExistingFile_def)
  show ?thesis
    using assms(1,2) by (simp add: save_def Let_def rm cp same ex)
qed


lemma sless_minus_one: "(- 1 <s (v :: cint)) \<longleftrightarrow> (0 \<le>s v)"
  by (simp add: word_sless_alt word_sle_eq) arith

lemma QVariant_toInt_None: "QVariant_toInt None = (0, False)"
  by (simp add: QVariant_toInt_def)

subsection \<open>The handles of a store stay bound to its temporary file\<close>

lemma handles_on_tmp_IniFile: "fst (IniFile p r ro w) = Inr this \<Longrightarrow> handles_on_tmp this"
  using IniFile_success [of p r ro w this] by (auto simp add: handles_on_tmp_def)

lemma handles_on_tmp_createQSettings:
  "handles_on_tmp this \<Longrightarrow> handles_on_tmp (fst (snd (createQSettings this w)))"
  by (cases "status (QSettings_new (mTmpFilepath this) w) = NoError")
    (simp_all add: createQSettings_fails createQSettings_succeeds handles_on_tmp_def
      QSettings_new_simps)

lemma handles_on_tmp_setFileVersion:
  "handles_on_tmp this \<Longrightarrow> handles_on_tmp (fst (snd (setFileVersion v this w)))"
  by (simp add: setFileVersion_cases handles_on_tmp_def QSettings_sync_fileName
      QSettings_setValue_def QSettings_new_simps)

lemma sync_all_fileNames:
  "list_all (\<lambda>(h, q). fileName q = t) ms \<Longrightarrow>
   list_all (\<lambda>(h, q). fileName q = t) (fst (snd (sync_all ms w)))"
proof (induction ms arbitrary: w)
  case Nil
  then show ?case by simp
next
  case (Cons a ms)
  obtain h q where a: "a = (h, q)" by (cases a)
  obtain q' w' where s: "QSettings_sync q w = (q', w')" by (cases "QSettings_sync q w")
  obtain ok rest' w'' where r: "sync_all ms w' = (ok, rest', w'')" by (cases "sync_all ms w'")
  from s have q': "fileName q' = fileName q"
    using QSettings_sync_fileName [of q w] by simp
  from Cons.prems a have "list_all (\<lambda>(h, q). fileName q = t) ms" and "fileName q = t"
    by simp_all
  with Cons.IH [of w'] r q' show ?case
    using Cons.prems by (simp add: a s)
qed

lemma save_store:
  "fst (snd (save b this w)) = this
   \<or> fst (snd (save b this w)) = this\<lparr>mSettings := fst (snd (sync_all (mSettings this) w))\<rparr>"
  by (simp add: save_def Let_def split: prod.splits bool.splits)

lemma handles_on_tmp_save:
  assumes "handles_on_tmp this"
  shows "handles_on_tmp (fst (snd (save b this w)))"
  using save_store [of b this w] assms sync_all_fileNames [of "mTmpFilepath this" "mSettings this" w]
  by (auto simp add: handles_on_tmp_def)

text \<open>
  A handle that stayed registered after a failed flush makes every later \<open>save\<close> fail, as
  the comment in \<open>releaseQSettings\<close> intends.
\<close>

lemma save_after_failed_release:
  assumes "\<not> mIsReadOnly this" and "(h, q) \<in> set (mSettings this)" and "status q \<noteq> NoError"
  shows "fst (save b this w) = Inl (RuntimeError (target b this) ErrorWhileWriting)"
proof -
  from sync_all_dirty_handle [OF assms(2,3), of w]
  obtain ms w1 where "sync_all (mSettings this) w = (False, ms, w1)"
    by (cases "sync_all (mSettings this) w") auto
  with assms(1) show ?thesis by (simp add: save_def)
qed

subsection \<open>The example worlds, evaluated\<close>

lemma tmpFilepath_not_a:
  "tmpFilepath ini w_ex \<noteq> ''/a''" "tmpFilepath ini w_ex \<noteq> ''/a~''"
  "tmpFilepath ini w_bad \<noteq> ''/a''" "tmpFilepath ini w_plain \<noteq> ''/a''"
  "tmpFilepath ini w_plain \<noteq> ''/a~''"
  by (simp_all add: tmpFilepath_def absoluteFilePath_def w_ex_def w_bad_def w_plain_def)

lemma QVariant_toInt_7: "QVariant_toInt (Some ''7'') = (7, True)"
  by (simp add: QVariant_toInt_def toLongLong_def parse_nat_def is_digit_def digit_val_def)

lemma QVariant_toInt_seven: "QVariant_toInt (Some ''seven'') = (0, False)"
  by (simp add: QVariant_toInt_def toLongLong_def parse_nat_def is_digit_def)

lemma iniFilepath_w_ex: "iniFilepath ''/a'' True w_ex = ''/a~''"
  by (simp add: iniFilepath_def isExistingFile_def w_ex_def)

lemma IniFile_w_ex:
  "IniFile ''/a'' True False w_ex =
     (Inr s_restored,
      w_ex\<lparr>files := (files w_ex)(tmpFilepath ''/a~'' w_ex \<mapsto> Ini [(''meta/file_version'', ''7'')])\<rparr>)"
proof -
  have src: "files w_ex (iniFilepath ''/a'' True w_ex) = Some (Ini [(''meta/file_version'', ''7'')])"
    by (simp add: iniFilepath_w_ex) (simp add: w_ex_def)
  have none: "files w_ex (tmpFilepath ''/a~'' w_ex) = None"
    using tmpFilepath_not_a(1,2) [of "''/a~''"] by (simp add: w_ex_def)
  have sets: "unremovable w_ex = {}" "unwritable w_ex = {}" "unreadable w_ex = {}"
    by (simp_all add: w_ex_def)
  show ?thesis
    unfolding IniFile_eq [OF src]
    by (simp add: iniFilepath_w_ex none sets tmpFilepath_not_a QVariant_toInt_7 s_restored_def)
qed

lemma IniFile_w_bad:
  "IniFile ''/a'' False False w_bad =
     (Inl (RuntimeError (tmpFilepath ''/a'' w_bad) ErrorWhileOpening),
      w_bad\<lparr>files := (files w_bad)(tmpFilepath ''/a'' w_bad \<mapsto> Malformed)\<rparr>)"
proof -
  have ini: "iniFilepath ''/a'' False w_bad = ''/a''" by (simp add: iniFilepath_def)
  have src: "files w_bad (iniFilepath ''/a'' False w_bad) = Some Malformed"
    by (simp add: ini) (simp add: w_bad_def)
  have none: "files w_bad (tmpFilepath ''/a'' w_bad) = None"
    using tmpFilepath_not_a(3) [of "''/a''"] by (simp add: w_bad_def)
  have sets: "unremovable w_bad = {}" "unwritable w_bad = {}" "unreadable w_bad = {}"
    by (simp_all add: w_bad_def)
  show ?thesis
    unfolding IniFile_eq [OF src]
    by (simp add: ini none sets tmpFilepath_not_a)
qed

lemma setFileVersion_locked: "setFileVersion 5 s_ex w_locked = (Inr (), s_dirty, w_locked)"
  by (simp add: setFileVersion_cases s_ex_def s_dirty_def w_locked_def w_open_def
      QSettings_new_def loadFile_def QSettings_setValue_def QSettings_sync_def setStatus_def
      new_ptr_def QString_number_def number_nat.simps digit_char_def)

subsection \<open>The two temporary file names of \<open>/a\<close>\<close>

text \<open>SHA-256 and Base64, evaluated on the paths \<open>/a\<close> and \<open>/a~\<close>.\<close>

lemma zeros_numeral: "zeros (numeral k) = 0 # zeros (pred_numeral k)"
  by (simp add: numeral_eq_Suc)

lemmas sha256_eval =
  tmpFilename_def sha256_def pad_def toLocal8Bit_def bytes64_def bytes32_def zeros_numeral
  compress_def K256_def H256_def step_def next_w_def bsig0_def bsig1_def ssig0_def ssig1_def
  ch32_def maj32_def rotr_def u32_def b64char_def b64url_alphabet_def Let_def

lemma tmpFilename_a: "tmpFilename ''/a'' = ''alDchYQTTH3lN8AFL_bSNr-HQ1XgUMkFI-DF_ypUOig''"
  by (simp add: sha256_eval)

lemma tmpFilename_a_backup: "tmpFilename ''/a~'' = ''pySvOufVSZo1snOtiKuoHVINM0Ml8jcIw-VfiPAHS9c''"
  by (simp add: sha256_eval)

lemma QVariant_toInt_3: "QVariant_toInt (Some ''3'') = (3, True)"
  by (simp add: QVariant_toInt_def toLongLong_def parse_nat_def is_digit_def digit_val_def)

lemma IniFile_w_ex_plain:
  "IniFile ''/a'' False False w_ex =
     (Inr s_plain,
      w_ex\<lparr>files := (files w_ex)(tmpFilepath ''/a'' w_ex \<mapsto> Ini [(''meta/file_version'', ''3'')])\<rparr>)"
proof -
  have ini: "iniFilepath ''/a'' False w_ex = ''/a''" by (simp add: iniFilepath_def)
  have src: "files w_ex (iniFilepath ''/a'' False w_ex) = Some (Ini [(''meta/file_version'', ''3'')])"
    by (simp add: ini) (simp add: w_ex_def)
  have none: "files w_ex (tmpFilepath ''/a'' w_ex) = None"
    using tmpFilepath_not_a(1,2) [of "''/a''"] by (simp add: w_ex_def)
  have sets: "unremovable w_ex = {}" "unwritable w_ex = {}" "unreadable w_ex = {}"
    by (simp_all add: w_ex_def)
  show ?thesis
    unfolding IniFile_eq [OF src]
    by (simp add: ini none sets tmpFilepath_not_a QVariant_toInt_3 s_plain_def)
qed



section \<open>The claims\<close>

text \<open>
  C1, as the code has it. The name of the temporary copy is computed from the path of the
  source file that the constructor chose, not from the store's own path: it is the
  temporary directory, \<open>/EDA4U/\<close>, and the URL-safe unpadded Base64 text of the SHA-256
  hash of that path's bytes, where the source is the backup when \<open>restore\<close> is set and
  the backup is there, and the store file otherwise.
\<close>

theorem shadow_path_from_source:
  assumes "fst (IniFile p r ro w) = Inr this"
  shows "mTmpFilepath this = tempPath w @ ''/EDA4U/'' @
           toBase64Url (sha256 (toLocal8Bit (if r \<and> files w (p @ ''~'') \<noteq> None then p @ ''~'' else p)))"
  using IniFile_success [OF assms]
  by (auto simp add: tmpFilepath_def absoluteFilePath_def tmpFilename_def iniFilepath_def
      isExistingFile_def)



theorem shadow_path_from_source_witness:
  "fst (IniFile ''/a'' True False w_ex) = Inr s_restored
   \<and> mTmpFilepath s_restored
       = tempPath w_ex @ ''/EDA4U/'' @ toBase64Url (sha256 (toLocal8Bit ''/a~''))"
proof -
  have ok: "fst (IniFile ''/a'' True False w_ex) = Inr s_restored"
    by (simp add: IniFile_w_ex)
  have src: "files w_ex ''/a~'' \<noteq> None" by (simp add: w_ex_def)
  from shadow_path_from_source [OF ok] ok src show ?thesis by simp
qed


text \<open>
  C1 as the spec states it fails. Opening \<open>/a\<close> with \<open>restore\<close> set while the backup
  \<open>/a~\<close> is there names the temporary copy after the hash of \<open>/a~\<close>, which is not
  the name made from the hash of the store's path \<open>/a\<close>; opening the same store
  without \<open>restore\<close> gives that other name.
\<close>

theorem shadow_path_not_from_canonical:
  "fst (IniFile ''/a'' True False w_ex) = Inr s_restored
   \<and> mFilepath s_restored = ''/a''
   \<and> mTmpFilepath s_restored = ''/tmp/EDA4U/pySvOufVSZo1snOtiKuoHVINM0Ml8jcIw-VfiPAHS9c''
   \<and> tempPath w_ex @ ''/EDA4U/'' @ toBase64Url (sha256 (toLocal8Bit ''/a''))
       = ''/tmp/EDA4U/alDchYQTTH3lN8AFL_bSNr-HQ1XgUMkFI-DF_ypUOig''
   \<and> mTmpFilepath s_restored
       \<noteq> tempPath w_ex @ ''/EDA4U/'' @ toBase64Url (sha256 (toLocal8Bit ''/a''))
   \<and> fst (IniFile ''/a'' False False w_ex) = Inr s_plain
   \<and> mFilepath s_plain = ''/a''
   \<and> mTmpFilepath s_plain = ''/tmp/EDA4U/alDchYQTTH3lN8AFL_bSNr-HQ1XgUMkFI-DF_ypUOig''
   \<and> mTmpFilepath s_restored \<noteq> mTmpFilepath s_plain"
proof -
  have t: "tempPath w_ex = ''/tmp''" by (simp add: w_ex_def)
  have h: "toBase64Url (sha256 (toLocal8Bit ''/a'')) = ''alDchYQTTH3lN8AFL_bSNr-HQ1XgUMkFI-DF_ypUOig''"
    using tmpFilename_a by (simp only: tmpFilename_def)
  have r: "mTmpFilepath s_restored = ''/tmp/EDA4U/pySvOufVSZo1snOtiKuoHVINM0Ml8jcIw-VfiPAHS9c''"
    by (simp add: s_restored_def tmpFilepath_def absoluteFilePath_def t tmpFilename_a_backup)
  have p: "mTmpFilepath s_plain = ''/tmp/EDA4U/alDchYQTTH3lN8AFL_bSNr-HQ1XgUMkFI-DF_ypUOig''"
    by (simp add: s_plain_def tmpFilepath_def absoluteFilePath_def t tmpFilename_a)
  have c: "tempPath w_ex @ ''/EDA4U/'' @ toBase64Url (sha256 (toLocal8Bit ''/a''))
       = ''/tmp/EDA4U/alDchYQTTH3lN8AFL_bSNr-HQ1XgUMkFI-DF_ypUOig''"
    by (simp add: t h)
  have ne1: "mTmpFilepath s_restored
       \<noteq> tempPath w_ex @ ''/EDA4U/'' @ toBase64Url (sha256 (toLocal8Bit ''/a''))"
    by (simp only: r c) simp
  have ne2: "mTmpFilepath s_restored \<noteq> mTmpFilepath s_plain"
    by (simp only: r p) simp
  have o1: "fst (IniFile ''/a'' True False w_ex) = Inr s_restored"
    by (simp add: IniFile_w_ex)
  have o2: "fst (IniFile ''/a'' False False w_ex) = Inr s_plain"
    by (simp add: IniFile_w_ex_plain)
  have f1: "mFilepath s_restored = ''/a''" by (simp add: s_restored_def)
  have f2: "mFilepath s_plain = ''/a''" by (simp add: s_plain_def)
  show ?thesis
    by (intro conjI) (rule o1 f1 r c ne1 o2 f2 p ne2)+
qed


text \<open>
  C2. For any number of open handles: when the flush of any handle reports a status that
  is not clean, \<open>save\<close> fails with an I/O error and does nothing after the flushes. The
  world it leaves is the world the flushes left; no file other than the files of the
  handles has changed; and the target file (the store file or its backup) is what it was,
  as long as the handles are bound to the temporary file and that is another file.
\<close>

theorem save_flush_failure:
  assumes "\<not> mIsReadOnly this"
    and "\<exists>st \<in> set (flush_statuses (mSettings this) w). st \<noteq> NoError"
  shows "fst (save toOriginal this w) = Inl (RuntimeError (target toOriginal this) ErrorWhileWriting)
       \<and> isIOError (RuntimeError (target toOriginal this) ErrorWhileWriting)
       \<and> snd (snd (save toOriginal this w)) = snd (snd (sync_all (mSettings this) w))
       \<and> (\<forall>x. (\<forall>(h, q) \<in> set (mSettings this). fileName q \<noteq> x) \<longrightarrow>
              files (snd (snd (save toOriginal this w))) x = files w x)
       \<and> (handles_on_tmp this \<and> mTmpFilepath this \<noteq> target toOriginal this \<longrightarrow>
            files (snd (snd (save toOriginal this w))) (target toOriginal this)
              = files w (target toOriginal this))"
proof -
  from assms(2) have "\<not> fst (sync_all (mSettings this) w)"
    by (simp add: sync_all_detects)
  then obtain ms w1 where s: "sync_all (mSettings this) w = (False, ms, w1)"
    by (cases "sync_all (mSettings this) w") auto
  have save: "save toOriginal this w =
      (Inl (RuntimeError (target toOriginal this) ErrorWhileWriting), this\<lparr>mSettings := ms\<rparr>, w1)"
    using assms(1) by (simp add: save_def s)
  have other: "files w1 x = files w x"
    if "\<forall>(h, q) \<in> set (mSettings this). fileName q \<noteq> x" for x
    using sync_all_other_file [OF that, of w] s by simp
  have frame: "files w1 (target toOriginal this) = files w (target toOriginal this)"
    if "handles_on_tmp this" and "mTmpFilepath this \<noteq> target toOriginal this"
  proof -
    from that have "\<forall>(h, q) \<in> set (mSettings this). fileName q \<noteq> target toOriginal this"
      by (auto simp add: handles_on_tmp_def list_all_iff)
    then show ?thesis by (rule other)
  qed
  show ?thesis using save s other frame by simp
qed

theorem save_flush_failure_witness:
  "\<not> mIsReadOnly s_two
   \<and> flush_statuses (mSettings s_two) w_locked = [NoError, AccessError]
   \<and> handles_on_tmp s_two \<and> mTmpFilepath s_two \<noteq> target True s_two
   \<and> fst (save True s_two w_locked) = Inl (RuntimeError ''/a'' ErrorWhileWriting)
   \<and> files (snd (snd (save True s_two w_locked))) ''/a''
        = Some (Ini [(''meta/file_version'', ''3'')])
   \<and> files (snd (snd (save True s_two w_locked))) ''/a~'' = None"
proof -
  note ev = s_two_def s_ex_def w_locked_def w_open_def QSettings_sync_def loadFile_def
    setStatus_def
  have ro: "\<not> mIsReadOnly s_two" by (simp add: s_two_def s_ex_def)
  have fs: "flush_statuses (mSettings s_two) w_locked = [NoError, AccessError]"
    by (simp add: ev)
  then have fl: "\<exists>st \<in> set (flush_statuses (mSettings s_two) w_locked). st \<noteq> NoError"
    by simp
  have h: "handles_on_tmp s_two \<and> mTmpFilepath s_two \<noteq> target True s_two"
    by (simp add: handles_on_tmp_def target_def s_two_def s_ex_def)
  have t: "target True s_two = ''/a''" by (simp add: target_def s_two_def s_ex_def)
  have f: "files w_locked ''/a'' = Some (Ini [(''meta/file_version'', ''3'')])"
    by (simp add: w_locked_def w_open_def)
  have g: "files w_locked ''/a~'' = None" by (simp add: w_locked_def w_open_def)
  have o: "\<forall>(h, q) \<in> set (mSettings s_two). fileName q \<noteq> ''/a~''"
    by (simp add: s_two_def s_ex_def)
  note th = save_flush_failure [OF ro fl, of True]
  have a: "fst (save True s_two w_locked) = Inl (RuntimeError ''/a'' ErrorWhileWriting)"
    using th [THEN conjunct1] by (simp only: t)
  have b: "files (snd (snd (save True s_two w_locked))) ''/a''
        = Some (Ini [(''meta/file_version'', ''3'')])"
    using th [THEN conjunct2, THEN conjunct2, THEN conjunct2, THEN conjunct2, THEN mp, OF h]
    by (simp only: t f)
  have c: "files (snd (snd (save True s_two w_locked))) ''/a~'' = None"
    using th [THEN conjunct2, THEN conjunct2, THEN conjunct2, THEN conjunct1, THEN spec, THEN mp, OF o]
    by (simp only: g)
  show ?thesis
    using ro fs h a b c by (simp only: simp_thms)
qed


text \<open>
  C3. After a successful \<open>save(false)\<close> the backup holds what the temporary copy
  holds and the store file is what it was; after a successful \<open>save(true)\<close> that
  follows, the store file holds what the temporary copy holds.
\<close>

theorem draft_then_publish:
  assumes hs: "handles_on_tmp this" and ne: "mTmpFilepath this \<noteq> mFilepath this"
    and draft: "save False this w = (Inr (), this1, w1)"
  shows "files w1 (mFilepath this @ ''~'') = files w1 (mTmpFilepath this)
       \<and> files w1 (mTmpFilepath this) \<noteq> None
       \<and> files w1 (mFilepath this) = files w (mFilepath this)
       \<and> (\<forall>this2 w2. save True this1 w1 = (Inr (), this2, w2) \<longrightarrow>
             files w2 (mFilepath this) = files w2 (mTmpFilepath this)
           \<and> files w2 (mTmpFilepath this) \<noteq> None)"
proof -
  from save_success [OF draft] obtain ms ws c where
    sync: "sync_all (mSettings this) w = (True, ms, ws)"
    and this1: "this1 = this\<lparr>mSettings := ms\<rparr>"
    and c: "files ws (mTmpFilepath this) = Some c"
    and tne: "mTmpFilepath this \<noteq> mFilepath this @ ''~''"
    and w1: "w1 = ws\<lparr>files := (files ws)(mFilepath this @ ''~'' \<mapsto> c)\<rparr>"
    by (auto simp add: target_def)
  have "\<forall>(h, q) \<in> set (mSettings this). fileName q \<noteq> mFilepath this"
    using hs ne by (auto simp add: handles_on_tmp_def list_all_iff)
  from sync_all_other_file [OF this, of w] sync
  have kept: "files ws (mFilepath this) = files w (mFilepath this)" by simp
  have a: "files w1 (mFilepath this @ ''~'') = files w1 (mTmpFilepath this)"
    and b: "files w1 (mTmpFilepath this) \<noteq> None"
    and d: "files w1 (mFilepath this) = files w (mFilepath this)"
    using c tne kept by (simp_all add: w1)
  have e: "files w2 (mFilepath this) = files w2 (mTmpFilepath this)
           \<and> files w2 (mTmpFilepath this) \<noteq> None"
    if publish: "save True this1 w1 = (Inr (), this2, w2)" for this2 w2
  proof -
    from save_success [OF publish] obtain ms' ws' c' where
      c': "files ws' (mTmpFilepath this) = Some c'"
      and tne': "mTmpFilepath this \<noteq> mFilepath this"
      and w2: "w2 = ws'\<lparr>files := (files ws')(mFilepath this \<mapsto> c')\<rparr>"
      by (auto simp add: target_def this1)
    then show ?thesis by simp
  qed
  from a b d e show ?thesis by blast
qed

theorem draft_then_publish_witness:
  "handles_on_tmp s_editing \<and> mTmpFilepath s_editing \<noteq> mFilepath s_editing
   \<and> fst (save False s_editing w_open) = Inr ()
   \<and> files (snd (snd (save False s_editing w_open))) ''/a~''
       = Some (Ini [(''meta/file_version'', ''5'')])
   \<and> files (snd (snd (save False s_editing w_open))) ''/tmp/EDA4U/x''
       = Some (Ini [(''meta/file_version'', ''5'')])
   \<and> files (snd (snd (save False s_editing w_open))) ''/a''
       = Some (Ini [(''meta/file_version'', ''3'')])
   \<and> fst (save True (fst (snd (save False s_editing w_open)))
                 (snd (snd (save False s_editing w_open)))) = Inr ()
   \<and> files (snd (snd (save True (fst (snd (save False s_editing w_open)))
                         (snd (snd (save False s_editing w_open)))))) ''/a''
       = Some (Ini [(''meta/file_version'', ''5'')])"
proof -
  let ?s1 = "fst (snd (save False s_editing w_open))"
  let ?w1 = "snd (snd (save False s_editing w_open))"
  let ?s2 = "fst (snd (save True ?s1 ?w1))"
  let ?w2 = "snd (snd (save True ?s1 ?w1))"
  note ev = save_def target_def s_editing_def s_ex_def w_open_def QSettings_sync_def
    loadFile_def merge_def isExistingFile_def QFile_remove_def QFile_copy_def Let_def
  have hs: "handles_on_tmp s_editing" and ne: "mTmpFilepath s_editing \<noteq> mFilepath s_editing"
    by (simp_all add: handles_on_tmp_def s_editing_def s_ex_def)
  have f1: "fst (save False s_editing w_open) = Inr ()" by (simp add: ev)
  then have r1: "save False s_editing w_open = (Inr (), ?s1, ?w1)"
    by (simp add: prod_eq_iff)
  have t: "files ?w1 ''/tmp/EDA4U/x'' = Some (Ini [(''meta/file_version'', ''5'')])"
    by (simp add: ev)
  have f2: "fst (save True ?s1 ?w1) = Inr ()" by (simp add: ev)
  then have r2: "save True ?s1 ?w1 = (Inr (), ?s2, ?w2)"
    by (simp add: prod_eq_iff)
  have t2: "files ?w2 ''/tmp/EDA4U/x'' = Some (Ini [(''meta/file_version'', ''5'')])"
    by (simp add: ev)
  have p: "mFilepath s_editing = ''/a''" "mTmpFilepath s_editing = ''/tmp/EDA4U/x''"
    by (simp_all add: s_editing_def s_ex_def)
  have o: "files w_open ''/a'' = Some (Ini [(''meta/file_version'', ''3'')])"
    by (simp add: w_open_def)
  note th = draft_then_publish [OF hs ne r1]
  have a: "files ?w1 ''/a~'' = Some (Ini [(''meta/file_version'', ''5'')])"
    using th [THEN conjunct1] by (simp only: p t append.simps)
  have d: "files ?w1 ''/a'' = Some (Ini [(''meta/file_version'', ''3'')])"
    using th [THEN conjunct2, THEN conjunct2, THEN conjunct1] by (simp only: p o)
  have e: "files ?w2 ''/a'' = Some (Ini [(''meta/file_version'', ''5'')])"
    using th [THEN conjunct2, THEN conjunct2, THEN conjunct2, rule_format, OF r2, THEN conjunct1]
    by (simp only: p t2)
  show ?thesis
    by (intro conjI) (rule hs ne f1 a t d f2 e)+
qed


text \<open>
  C4. In a world where the store file, its backup and the two temporary names can be
  removed, written and read, where the parent directory can be made and where no
  temporary name is the store file or the backup itself, \<open>create(path, v)\<close> with
  \<open>v \<ge> 0\<close>, then \<open>save(true)\<close>, then opening \<open>path\<close> (with any flags) all succeed, and the
  opened store has version \<open>v\<close>.
\<close>

theorem create_save_open:
  assumes v: "0 \<le>s v"
    and up: "usable w p" and ub: "usable w (p @ ''~'')"
    and ut1: "usable w (tmpFilepath (p @ ''~'') w)" and ut2: "usable w (tmpFilepath p w)"
    and dir: "getParentDir p \<notin> mkPathFails w"
    and a1: "tmpFilepath (p @ ''~'') w \<noteq> p" "tmpFilepath (p @ ''~'') w \<noteq> p @ ''~''"
    and a2: "tmpFilepath p w \<noteq> p"
  shows "\<exists>s1 w1 s2 w2 s3 w3.
           create p v w = (Inr s1, w1)
         \<and> save True s1 w1 = (Inr (), s2, w2)
         \<and> IniFile p r ro w2 = (Inr s3, w3)
         \<and> mFileVersion s3 = v"
proof -
  define b where "b = p @ ''~''"
  define t1 where "t1 = tmpFilepath b w"
  define t2 where "t2 = tmpFilepath p w"
  define kv where "kv = [(''meta/file_version'', QString_number v)]"
  note u = up ub [folded b_def] ut1 [folded b_def, folded t1_def] ut2 [folded t2_def]
  note al = a1 [folded b_def, folded t1_def] a2 [folded t2_def]
  have pb: "p \<noteq> b" "b \<noteq> p" by (simp_all add: b_def)
  define wa where "wa = w\<lparr>files := (files w)(p := None)\<rparr>"
  define wb where "wb = wa\<lparr>files := (files wa)(b \<mapsto> Ini [])\<rparr>"
  define wc where "wc = wb\<lparr>files := (files wb)(t1 \<mapsto> Ini [])\<rparr>"
  define wd where "wd = wc\<lparr>files := (files wc)(t1 \<mapsto> Ini kv)\<rparr>"
  define we where "we = wd\<lparr>files := (files wd)(b \<mapsto> Ini kv)\<rparr>"
  define wf where "wf = we\<lparr>files := (files we)(p \<mapsto> Ini kv)\<rparr>"
  define obj0 where "obj0 = \<lparr>mFilepath = p, mTmpFilepath = t1, mIsReadOnly = False,
                              mSettings = [], mFileVersion = - 1\<rparr>"
  define obj1 where "obj1 = obj0\<lparr>mFileVersion := v\<rparr>"
  note wdefs = wa_def wb_def wc_def wd_def we_def wf_def
  have sets: "unremovable x = unremovable w" "unwritable x = unwritable w"
      "unreadable x = unreadable w" "mkPathFails x = mkPathFails w" "tempPath x = tempPath w"
    if "x \<in> {wa, wb, wc, wd, we, wf}" for x
    using that by (auto simp add: wdefs)
  have tmp: "tmpFilepath y x = tmpFilepath y w" if "x \<in> {wa, wb, wc, wd, we, wf}" for x y
    using sets(5) [OF that] by (simp add: tmpFilepath_def)
  have st1: "(if isExistingFile p w then QFile_remove p w else (True, w)) = (True, wa)"
    using u(1) by (auto simp add: usable_def isExistingFile_def QFile_remove_def wa_def
        world_remove_absent)
  have st2: "mkPath (getParentDir p) wa"
    using dir by (simp add: mkPath_def sets)
  have st3: "QFile_open_WriteOnly (p @ ''~'') wa = (True, wb)"
    using u(2) by (simp add: QFile_open_WriteOnly_def usable_def sets wb_def b_def)
  have ini_b: "iniFilepath p True wb = b"
    by (simp add: iniFilepath_def isExistingFile_def wb_def b_def)
  have st4: "IniFile p True False wb = (Inr obj0, wc)"
    using IniFile_opened [where w = wb and p = p and r = True and ro = False and kv = "[]"]
      u al
    by (simp add: ini_b tmp t1_def [symmetric] usable_def sets QVariant_toInt_None obj0_def
        wc_def) (simp add: wb_def)
  have st5: "setFileVersion v obj0 wc = (Inr (), obj1, wd)"
    using setFileVersion_written [where this = obj0 and w = wc and kv = "[]" and v = v] u
    by (simp add: obj0_def obj1_def usable_def sets wc_def wd_def kv_def)
  have st6: "save False obj1 wd = (Inr (), obj1, we)"
    using save_done [where this = obj1 and w = wd and b = False and c = "Ini kv"] u al
    by (simp add: obj0_def obj1_def target_def usable_def sets b_def [symmetric] we_def)
      (simp add: wd_def)
  have create: "create p v w = (Inr obj1, we)"
    using v by (simp add: create_def st1 st2 st3 st4 sless_minus_one st5 st6)
  have st7: "save True obj1 we = (Inr (), obj1, wf)"
    using save_done [where this = obj1 and w = we and b = True and c = "Ini kv"] u al pb
    by (simp add: obj0_def obj1_def target_def usable_def sets wf_def)
      (simp add: wdefs)
  have fb: "files wf b = Some (Ini kv)" and fp: "files wf p = Some (Ini kv)"
    using pb by (simp_all add: wdefs)
  have ver: "QVariant_toInt (map_of kv ''meta/file_version'') = (v, True)"
    by (simp add: kv_def QVariant_toInt_QString_number)
  have "\<exists>s3 w3. IniFile p r ro wf = (Inr s3, w3) \<and> mFileVersion s3 = v"
  proof (cases r)
    case True
    have ini: "iniFilepath p r wf = b"
      using True fb by (simp add: iniFilepath_def isExistingFile_def b_def)
    show ?thesis
      using IniFile_opened [where w = wf and p = p and r = r and ro = ro and kv = kv]
        u al fb
      by (simp add: ini tmp t1_def [symmetric] usable_def sets ver)
  next
    case False
    have ini: "iniFilepath p r wf = p"
      using False by (simp add: iniFilepath_def)
    show ?thesis
      using IniFile_opened [where w = wf and p = p and r = r and ro = ro and kv = kv]
        u al fp
      by (simp add: ini tmp t2_def [symmetric] usable_def sets ver)
  qed
  with create st7 show ?thesis by blast
qed


theorem create_save_open_witness:
  "0 \<le>s (5 :: cint) \<and> usable w_ex ''/a'' \<and> usable w_ex (''/a'' @ ''~'')
   \<and> usable w_ex (tmpFilepath (''/a'' @ ''~'') w_ex) \<and> usable w_ex (tmpFilepath ''/a'' w_ex)
   \<and> getParentDir ''/a'' \<notin> mkPathFails w_ex
   \<and> tmpFilepath (''/a'' @ ''~'') w_ex \<noteq> ''/a''
   \<and> tmpFilepath (''/a'' @ ''~'') w_ex \<noteq> ''/a'' @ ''~''
   \<and> tmpFilepath ''/a'' w_ex \<noteq> ''/a''
   \<and> (\<exists>s1 w1 s2 w2 s3 w3.
         create ''/a'' 5 w_ex = (Inr s1, w1)
       \<and> save True s1 w1 = (Inr (), s2, w2)
       \<and> IniFile ''/a'' False False w2 = (Inr s3, w3)
       \<and> mFileVersion s3 = 5)"
proof -
  have v: "0 \<le>s (5 :: cint)" by (simp add: word_sle_eq)
  have u: "usable w_ex x" for x by (simp add: usable_def w_ex_def)
  have d: "getParentDir ''/a'' \<notin> mkPathFails w_ex" by (simp add: w_ex_def)
  have a: "tmpFilepath (''/a'' @ ''~'') w_ex \<noteq> ''/a''"
      "tmpFilepath (''/a'' @ ''~'') w_ex \<noteq> ''/a'' @ ''~''"
      "tmpFilepath ''/a'' w_ex \<noteq> ''/a''"
    by (simp_all add: tmpFilepath_not_a)
  note th = create_save_open [OF v u u u u d a, of False False]
  show ?thesis
    by (intro conjI) (rule v u d a th)+
qed


text \<open>
  C5. The constructor opens the backup when \<open>restore\<close> is set and the backup is there,
  and the store file otherwise. When it succeeds, the temporary copy holds what that source
  held. It fails with the missing-file error (the spec's \<open>NotFound\<close>) exactly when
  the chosen source is not there.
\<close>

theorem open_source_selection:
  "iniFilepath p r w = (if r \<and> files w (p @ ''~'') \<noteq> None then p @ ''~'' else p)
   \<and> (\<forall>this. fst (IniFile p r ro w) = Inr this \<longrightarrow>
          mTmpFilepath this = tmpFilepath (iniFilepath p r w) w
        \<and> files (snd (IniFile p r ro w)) (mTmpFilepath this) = files w (iniFilepath p r w)
        \<and> files w (iniFilepath p r w) \<noteq> None)
   \<and> ((\<exists>e. fst (IniFile p r ro w) = Inl e \<and> isNotFound e)
        \<longleftrightarrow> files w (iniFilepath p r w) = None)"
proof (intro conjI allI impI)
  show "iniFilepath p r w = (if r \<and> files w (p @ ''~'') \<noteq> None then p @ ''~'' else p)"
    by (simp add: iniFilepath_def isExistingFile_def)
next
  fix obj assume ok: "fst (IniFile p r ro w) = Inr obj"
  from IniFile_success [OF ok] obtain kv where
    src: "files w (iniFilepath p r w) = Some (Ini kv)"
    and tmp: "mTmpFilepath obj = tmpFilepath (iniFilepath p r w) w"
    and w': "snd (IniFile p r ro w)
              = w\<lparr>files := (files w)(tmpFilepath (iniFilepath p r w) w \<mapsto> Ini kv)\<rparr>"
    by auto
  show "mTmpFilepath obj = tmpFilepath (iniFilepath p r w) w" by (rule tmp)
  show "files (snd (IniFile p r ro w)) (mTmpFilepath obj) = files w (iniFilepath p r w)"
    by (simp add: tmp w' src)
  show "files w (iniFilepath p r w) \<noteq> None" by (simp add: src)
next
  show "(\<exists>e. fst (IniFile p r ro w) = Inl e \<and> isNotFound e)
        \<longleftrightarrow> files w (iniFilepath p r w) = None"
    by (rule IniFile_NotFound_iff)
qed


theorem open_source_selection_witness:
  "iniFilepath ''/a'' True w_ex = ''/a~''
   \<and> fst (IniFile ''/a'' True False w_ex) = Inr s_restored
   \<and> mTmpFilepath s_restored = tmpFilepath ''/a~'' w_ex
   \<and> files (snd (IniFile ''/a'' True False w_ex)) (mTmpFilepath s_restored)
       = Some (Ini [(''meta/file_version'', ''7'')])
   \<and> fst (IniFile ''/a'' False False w_bad)
       = Inl (RuntimeError (tmpFilepath ''/a'' w_bad) ErrorWhileOpening)
   \<and> \<not> isNotFound (RuntimeError (tmpFilepath ''/a'' w_bad) ErrorWhileOpening)
   \<and> files w_bad (iniFilepath ''/a'' False w_bad) = Some Malformed"
proof -
  have ok: "fst (IniFile ''/a'' True False w_ex) = Inr s_restored"
    by (simp add: IniFile_w_ex)
  have src: "files w_ex ''/a~'' = Some (Ini [(''meta/file_version'', ''7'')])"
    by (simp add: w_ex_def)
  note th = open_source_selection [of "''/a''" True w_ex False]
  from th ok have a: "mTmpFilepath s_restored = tmpFilepath (iniFilepath ''/a'' True w_ex) w_ex"
    and b: "files (snd (IniFile ''/a'' True False w_ex)) (mTmpFilepath s_restored)
         = files w_ex (iniFilepath ''/a'' True w_ex)"
    by blast+
  have a': "mTmpFilepath s_restored = tmpFilepath ''/a~'' w_ex"
    using a by (simp only: iniFilepath_w_ex)
  have b': "files (snd (IniFile ''/a'' True False w_ex)) (mTmpFilepath s_restored)
       = Some (Ini [(''meta/file_version'', ''7'')])"
    using b by (simp only: iniFilepath_w_ex src)
  have c: "fst (IniFile ''/a'' False False w_bad)
       = Inl (RuntimeError (tmpFilepath ''/a'' w_bad) ErrorWhileOpening)"
    by (simp add: IniFile_w_bad)
  have d: "\<not> isNotFound (RuntimeError (tmpFilepath ''/a'' w_bad) ErrorWhileOpening)"
    by simp
  have e: "files w_bad (iniFilepath ''/a'' False w_bad) = Some Malformed"
    by (simp add: iniFilepath_def w_bad_def)
  show ?thesis
    by (intro conjI) (rule iniFilepath_w_ex ok a' b' c d e)+
qed


text \<open>
  C6. On a read-only store both \<open>save\<close> and \<open>remove\<close> throw a \<open>LogicError\<close> and leave
  the store and every file as they were.
\<close>

theorem readonly_rejected:
  "mIsReadOnly this \<Longrightarrow>
     save toOriginal this w = (Inl (LogicError CannotSaveReadOnly), this, w)
   \<and> remove this w = (Inl (LogicError CannotRemoveReadOnly), w)
   \<and> isLogicError (LogicError CannotSaveReadOnly) \<and> isLogicError (LogicError CannotRemoveReadOnly)"
  by (simp add: save_def remove_def)

theorem readonly_rejected_witness:
  "mIsReadOnly (s_ex\<lparr>mIsReadOnly := True\<rparr>)
   \<and> save False (s_ex\<lparr>mIsReadOnly := True\<rparr>) w_open
       = (Inl (LogicError CannotSaveReadOnly), s_ex\<lparr>mIsReadOnly := True\<rparr>, w_open)
   \<and> remove (s_ex\<lparr>mIsReadOnly := True\<rparr>) w_open = (Inl (LogicError CannotRemoveReadOnly), w_open)"
  using readonly_rejected [of "s_ex\<lparr>mIsReadOnly := True\<rparr>" False w_open] by simp

text \<open>
  C7, as the code has it. \<open>setFileVersion\<close> fails exactly when acquiring the handle
  fails, with that failure, and then changes nothing. Once the handle is acquired it sets
  the version key in the handle, returns normally and the cached version is the new one,
  whatever the flush of the release reports: the world is the one that flush leaves;
  after a clean flush the handle is gone from the registry, after a failed one the handle
  stays registered with its error status.
\<close>

theorem setFileVersion_outcome:
  "(fst (setFileVersion v this w) = Inl e \<longleftrightarrow> fst (createQSettings this w) = Inl e)
   \<and> (fst (createQSettings this w) = Inl e \<longrightarrow> snd (setFileVersion v this w) = (this, w))
   \<and> (fst (createQSettings this w) = Inr h \<longrightarrow>
        fst (setFileVersion v this w) = Inr ()
      \<and> mFileVersion (fst (snd (setFileVersion v this w))) = v
      \<and> mSettings (fst (snd (setFileVersion v this w))) =
          (let q' = fst (QSettings_sync
                     (QSettings_setValue ''meta/file_version'' (QString_number v)
                        (QSettings_new (mTmpFilepath this) w)) w)
           in if status q' = NoError then mSettings this else mSettings this @ [(h, q')])
      \<and> snd (snd (setFileVersion v this w)) =
          snd (QSettings_sync
                 (QSettings_setValue ''meta/file_version'' (QString_number v)
                    (QSettings_new (mTmpFilepath this) w)) w))"
proof (cases "status (QSettings_new (mTmpFilepath this) w) = NoError")
  case False
  then show ?thesis
    by (simp add: setFileVersion_cases createQSettings_fails)
next
  case True
  then show ?thesis
    by (simp add: setFileVersion_cases createQSettings_succeeds Let_def)
qed

theorem setFileVersion_outcome_witness:
  "fst (createQSettings s_ex w_locked) = Inr 1
   \<and> fst (setFileVersion 5 s_ex w_locked) = Inr ()
   \<and> mFileVersion (fst (snd (setFileVersion 5 s_ex w_locked))) = 5
   \<and> map fst (mSettings (fst (snd (setFileVersion 5 s_ex w_locked)))) = [1]
   \<and> map (status \<circ> snd) (mSettings (fst (snd (setFileVersion 5 s_ex w_locked)))) = [AccessError]"
proof -
  have c: "fst (createQSettings s_ex w_locked) = Inr 1"
    by (simp add: createQSettings_def s_ex_def w_locked_def w_open_def QSettings_new_def
        loadFile_def new_ptr_def)
  from setFileVersion_outcome [of 5 s_ex w_locked AssertionFailed 1] c
  have "fst (setFileVersion 5 s_ex w_locked) = Inr ()
      \<and> mFileVersion (fst (snd (setFileVersion 5 s_ex w_locked))) = 5"
    by blast
  moreover have "map fst (mSettings (fst (snd (setFileVersion 5 s_ex w_locked)))) = [1]"
    by (simp add: setFileVersion_locked) (simp add: s_dirty_def s_ex_def)
  moreover have "map (status \<circ> snd) (mSettings (fst (snd (setFileVersion 5 s_ex w_locked))))
      = [AccessError]"
    by (simp add: setFileVersion_locked) (simp add: s_dirty_def s_ex_def)
  ultimately show ?thesis
    using c by blast
qed

text \<open>
  C7 as the spec states it fails: in \<open>w_locked\<close> the temporary copy cannot be written,
  the flush of the release step ends with status \<open>AccessError\<close>, and \<open>setFileVersion\<close>
  still returns normally, leaving the handle registered.
\<close>

theorem setFileVersion_flush_failure_not_thrown:
  "status (fst (QSettings_sync
       (QSettings_setValue ''meta/file_version'' (QString_number 5)
          (QSettings_new (mTmpFilepath s_ex) w_locked)) w_locked)) = AccessError
   \<and> setFileVersion 5 s_ex w_locked = (Inr (), s_dirty, w_locked)
   \<and> mSettings s_dirty =
       [(1, \<lparr>fileName = ''/tmp/EDA4U/x'', entries = [(''meta/file_version'', ''3'')],
             changes = [(''meta/file_version'', ''5'')], status = AccessError\<rparr>)]"
  by (simp add: setFileVersion_locked)
    (simp add: s_ex_def s_dirty_def w_locked_def w_open_def
      QSettings_new_def loadFile_def QSettings_setValue_def QSettings_sync_def setStatus_def)


text \<open>
  C8. When \<open>remove\<close> has succeeded on a store with no open handle, the store file, its
  backup and the temporary file are gone, and a second \<open>remove\<close> succeeds as well and
  changes nothing.
\<close>

theorem remove_twice:
  assumes empty: "mSettings this = []" and first: "remove this w = (Inr (), w')"
  shows "remove this w' = (Inr (), w')
       \<and> files w' (mFilepath this) = None
       \<and> files w' (mFilepath this @ ''~'') = None
       \<and> files w' (mTmpFilepath this) = None"
proof -
  let ?p = "mFilepath this" and ?b = "mFilepath this @ ''~''" and ?t = "mTmpFilepath this"
  from first have rw: "\<not> mIsReadOnly this"
    by (auto simp add: remove_def)
  obtain ok1 w1 where s1: "(if QFile_exists ?p w then QFile_remove ?p w else (True, w)) = (ok1, w1)"
    by (cases "if QFile_exists ?p w then QFile_remove ?p w else (True, w)")
  obtain ok2 w2 where s2: "(if QFile_exists ?b w1 then QFile_remove ?b w1 else (True, w1)) = (ok2, w2)"
    by (cases "if QFile_exists ?b w1 then QFile_remove ?b w1 else (True, w1)")
  obtain ok3 w3 where s3: "(if QFile_exists ?t w2 then QFile_remove ?t w2 else (True, w2)) = (ok3, w3)"
    by (cases "if QFile_exists ?t w2 then QFile_remove ?t w2 else (True, w2)")
  from first rw empty s1 s2 s3 have oks: "ok1" "ok2" "ok3" and w': "w' = w3"
    by (auto simp add: remove_def split: if_splits)
  from s1 oks have p1: "files w1 ?p = None" by (simp add: remove_step)
  from s2 oks have b2: "files w2 ?b = None" and p2: "files w2 ?p = None"
    using p1 by (simp_all add: remove_step)
  from s3 oks have t3: "files w3 ?t = None" and b3: "files w3 ?b = None" and p3: "files w3 ?p = None"
    using b2 p2 by (simp_all add: remove_step)
  from rw empty p3 b3 t3 have "remove this w3 = (Inr (), w3)"
    by (simp add: remove_def QFile_exists_def)
  with w' p3 b3 t3 show ?thesis by simp
qed

theorem remove_twice_witness:
  "mSettings s_ex = [] \<and> fst (remove s_ex w_open) = Inr ()
   \<and> remove s_ex (snd (remove s_ex w_open)) = (Inr (), snd (remove s_ex w_open))
   \<and> files (snd (remove s_ex w_open)) ''/a'' = None
   \<and> files (snd (remove s_ex w_open)) ''/tmp/EDA4U/x'' = None"
proof -
  have e: "mSettings s_ex = []" by (simp add: s_ex_def)
  have f: "fst (remove s_ex w_open) = Inr ()"
    by (simp add: remove_def s_ex_def w_open_def QFile_exists_def QFile_remove_def)
  then have r: "remove s_ex w_open = (Inr (), snd (remove s_ex w_open))"
    by (simp add: prod_eq_iff)
  show ?thesis
    using remove_twice [OF e r] e f by (simp add: s_ex_def)
qed






text \<open>
  C10. When the constructor fails because the handle on the temporary copy could not be
  opened, the temporary copy it has just made is still there, holding what the source
  held: nothing removes it.
\<close>

theorem failed_open_leaves_shadow:
  assumes "fst (IniFile p r ro w) = Inl (RuntimeError x ErrorWhileOpening)"
  shows "x = tmpFilepath (iniFilepath p r w) w
       \<and> files w (iniFilepath p r w) \<noteq> None
       \<and> files (snd (IniFile p r ro w)) (tmpFilepath (iniFilepath p r w) w)
           = files w (iniFilepath p r w)"
  using IniFile_failure_opening [OF assms] by auto


theorem failed_open_leaves_shadow_witness:
  "fst (IniFile ''/a'' False False w_bad)
     = Inl (RuntimeError (tmpFilepath ''/a'' w_bad) ErrorWhileOpening)
   \<and> files w_bad (iniFilepath ''/a'' False w_bad) = Some Malformed
   \<and> files (snd (IniFile ''/a'' False False w_bad)) (tmpFilepath ''/a'' w_bad) = Some Malformed"
proof -
  have f: "fst (IniFile ''/a'' False False w_bad)
     = Inl (RuntimeError (tmpFilepath ''/a'' w_bad) ErrorWhileOpening)"
    by (simp add: IniFile_w_bad)
  have ini: "iniFilepath ''/a'' False w_bad = ''/a''" by (simp add: iniFilepath_def)
  have src: "files w_bad ''/a'' = Some Malformed" by (simp add: w_bad_def)
  from failed_open_leaves_shadow [OF f] f show ?thesis
    by (simp add: ini src)
qed


end
